theory Spec2Isabelle
  imports Main
begin

section \<open>The syntax tree consumed by the plugin\<close>

text \<open>
  The plugin of \<^verbatim>\<open>flake8_setka_linter.py\<close> receives a value of Python's dynamically typed
  \<^verbatim>\<open>ast.AST\<close> and dispatches on the node class with \<^verbatim>\<open>isinstance\<close>. The model keeps one
  constructor for each class the code names and one for every other class:
  \<^item> \<open>Name id\<close> is \<^verbatim>\<open>ast.Name\<close>;
  \<^item> \<open>Attribute value attr\<close> is \<^verbatim>\<open>ast.Attribute\<close>;
  \<^item> \<open>Call func args keywords\<close> is \<^verbatim>\<open>ast.Call\<close>;
  \<^item> \<open>Assign targets value lineno col_offset\<close> is \<^verbatim>\<open>ast.Assign\<close>;
  \<^item> \<open>Other children\<close> is a node of any other class (\<^verbatim>\<open>Module\<close>, \<^verbatim>\<open>ClassDef\<close>,
    \<^verbatim>\<open>Tuple\<close>, \<^verbatim>\<open>Subscript\<close>, \<^verbatim>\<open>Constant\<close>, \<^verbatim>\<open>keyword\<close>, ...) with its child nodes in
    field order.
  Python strings are modelled by their UTF-8 byte sequences; comparison, prefix and
  suffix tests, concatenation and splitting at the ASCII dot agree on both views.
\<close>

datatype ast =
    Name string
  | Attribute ast string
  | Call ast "ast list" "ast list"
  | Assign "ast list" ast int int
  | Other "ast list"

text \<open>
  \<^verbatim>\<open>ast.iter_child_nodes\<close>: the child nodes in the order of the class's fields
  (\<^verbatim>\<open>Attribute\<close>: value; \<^verbatim>\<open>Call\<close>: func, args, keywords; \<^verbatim>\<open>Assign\<close>: targets, value).
  The \<^verbatim>\<open>ctx\<close> markers of \<^verbatim>\<open>Name\<close> and \<^verbatim>\<open>Attribute\<close> are leaves of a class the plugin
  never inspects and are left out.
\<close>

fun iter_child_nodes :: "ast \<Rightarrow> ast list" where
  "iter_child_nodes (Name i) = []"
| "iter_child_nodes (Attribute v a) = [v]"
| "iter_child_nodes (Call f as ks) = f # as @ ks"
| "iter_child_nodes (Assign ts v l c) = ts @ [v]"
| "iter_child_nodes (Other ns) = ns"

text \<open>
  \<^verbatim>\<open>ast.walk\<close> of CPython keeps a queue: it pops the first node, appends that node's
  children at the back and yields the node, until the queue is empty.
\<close>

function walk_queue :: "ast list \<Rightarrow> ast list" where
  "walk_queue [] = []"
| "walk_queue (node # todo) = node # walk_queue (todo @ iter_child_nodes node)"
  by pat_completeness auto
termination
proof (relation "measure (\<lambda>todo. sum_list (map size todo) + length todo)")
  fix node :: ast and todo :: "ast list"
  have "sum_list (map size (iter_child_nodes node)) + length (iter_child_nodes node)
      \<le> size node"
    by (cases node) (simp_all add: size_list_conv_sum_list)
  then show "(todo @ iter_child_nodes node, node # todo)
      \<in> measure (\<lambda>todo. sum_list (map size todo) + length todo)"
    by simp
qed simp

definition walk :: "ast \<Rightarrow> ast list" where
  "walk node = walk_queue [node]"

section \<open>String operations of Python used by the plugin\<close>

text \<open>\<^verbatim>\<open>s.startswith(p)\<close> and \<^verbatim>\<open>s.endswith(x)\<close>.\<close>

definition startswith :: "string \<Rightarrow> string \<Rightarrow> bool" where
  "startswith s p = (take (length p) s = p)"

definition endswith :: "string \<Rightarrow> string \<Rightarrow> bool" where
  "endswith s x = (length x \<le> length s \<and> drop (length s - length x) s = x)"

text \<open>
  \<^verbatim>\<open>s.split(sep)\<close> for a separator of one character: the segments between the separators,
  empty segments kept, so the result is never the empty list.
\<close>

fun str_split :: "char \<Rightarrow> string \<Rightarrow> string list" where
  "str_split sep [] = [[]]"
| "str_split sep (c # cs) =
     (if c = sep then [] # str_split sep cs
      else (case str_split sep cs of
              [] \<Rightarrow> [[c]]
            | w # ws \<Rightarrow> (c # w) # ws))"

text \<open>
  \<^verbatim>\<open>template.format(arg)\<close> for a template with one replacement field \<^verbatim>\<open>{}\<close> and no
  other brace, which is the shape of every template of the plugin: the field is replaced
  by the argument, the text around it is copied.
\<close>

fun str_format :: "string \<Rightarrow> string \<Rightarrow> string" where
  "str_format (c # d # r) arg =
     (if c = CHR ''{'' \<and> d = CHR ''}'' then arg @ r else c # str_format (d # r) arg)"
| "str_format r arg = r"

section \<open>Field descriptors, rules and diagnostics\<close>

datatype error = ValueError | AttributeError

record FieldInfo =
  name :: string
  column_type_node :: ast
  base_type :: string
  full_type :: string

text \<open>
  A rule holds two Python callables. Calling one either returns a truth value or raises,
  so each is a function into \<open>error + bool\<close>.
\<close>

record Rule =
  error_code :: string
  condition :: "FieldInfo \<Rightarrow> error + bool"
  assertion :: "FieldInfo \<Rightarrow> error + bool"
  message :: string

text \<open>The fourth component of a yielded tuple is \<^verbatim>\<open>type(self)\<close>, the plugin class.\<close>

datatype origin = PluginClass

type_synonym diagnostic = "int \<times> int \<times> string \<times> origin"

text \<open>
  What a generator does when it is run to its end: the values it yields, in order, and
  the exception that ended it, if one did.
\<close>

type_synonym 'a generator = "'a list \<times> error option"

definition then_gen :: "'a generator \<Rightarrow> 'a generator \<Rightarrow> 'a generator" where
  "then_gen g h = (case snd g of
                     Some e \<Rightarrow> g
                   | None \<Rightarrow> (fst g @ fst h, snd h))"

subsection \<open>The message templates\<close>

text \<open>The templates are Russian text; the words are given by their UTF-8 bytes.\<close>

definition utf8 :: "nat list \<Rightarrow> string" where
  "utf8 bs = map char_of bs"

definition apostrophe :: string where
  "apostrophe = [CHR 0x27]"

definition word_pole :: string where
  "word_pole = utf8 [208, 159, 208, 190, 208, 187, 208, 181]"

definition word_imeet :: string where
  "word_imeet = utf8 [208, 184, 208, 188, 208, 181, 208, 181, 209, 130]"

definition word_tip :: string where
  "word_tip = utf8 [209, 130, 208, 184, 208, 191]"

definition word_dolzhno :: string where
  "word_dolzhno = utf8 [208, 180, 208, 190, 208, 187, 208, 182, 208, 189, 208, 190]"

definition word_okanchivatsya :: string where
  "word_okanchivatsya = utf8 [208, 190, 208, 186, 208, 176, 208, 189, 209, 135, 208, 184,
     208, 178, 208, 176, 209, 130, 209, 140, 209, 129, 209, 143]"

definition word_na :: string where
  "word_na = utf8 [208, 189, 208, 176]"

definition word_ili :: string where
  "word_ili = utf8 [208, 184, 208, 187, 208, 184]"

definition word_byt :: string where
  "word_byt = utf8 [208, 177, 209, 139, 209, 130, 209, 140]"

definition word_opredeleno :: string where
  "word_opredeleno = utf8 [208, 190, 208, 191, 209, 128, 208, 181, 208, 180, 208, 181,
     208, 187, 208, 181, 208, 189, 208, 190]"

definition word_kak :: string where
  "word_kak = utf8 [208, 186, 208, 176, 208, 186]"

definition word_ispolzovat :: string where
  "word_ispolzovat = utf8 [208, 184, 209, 129, 208, 191, 208, 190, 208, 187, 209, 140,
     208, 183, 208, 190, 208, 178, 208, 176, 209, 130, 209, 140]"

definition word_vmesto :: string where
  "word_vmesto = utf8 [208, 178, 208, 188, 208, 181, 209, 129, 209, 130, 208, 190]"

definition message_STK001 :: string where
  "message_STK001 = word_pole @ '' '' @ apostrophe @ ''{}'' @ apostrophe @ '' ''
     @ word_imeet @ '' '' @ word_tip @ '' DateTime, '' @ word_dolzhno @ '' ''
     @ word_okanchivatsya @ '' '' @ word_na @ '' '' @ apostrophe @ ''_at'' @ apostrophe
     @ '' '' @ word_ili @ '' '' @ apostrophe @ ''_dt'' @ apostrophe"

definition message_STK002 :: string where
  "message_STK002 = word_pole @ '' '' @ apostrophe @ ''{}'' @ apostrophe @ '' ''
     @ word_imeet @ '' '' @ word_tip @ '' Date, '' @ word_dolzhno @ '' ''
     @ word_okanchivatsya @ '' '' @ word_na @ '' '' @ apostrophe @ ''_date'' @ apostrophe"

definition message_STK003 :: string where
  "message_STK003 = word_pole @ '' '' @ apostrophe @ ''{}'' @ apostrophe @ '' ''
     @ word_dolzhno @ '' '' @ word_byt @ '' '' @ word_opredeleno @ '' '' @ word_kak
     @ '' Enum''"

definition message_STK004 :: string where
  "message_STK004 = word_pole @ '' '' @ apostrophe @ ''{}'' @ apostrophe @ '' ''
     @ word_dolzhno @ '' '' @ word_ispolzovat @ '' UUID '' @ word_vmesto @ '' Integer''"

subsection \<open>The plugin object and its rule list\<close>

record Plugin =
  tree :: ast
  filename :: string
  rules :: "Rule list"

text \<open>
  \<^verbatim>\<open>Plugin.__init__\<close>. The lambdas of the first four rules call \<^verbatim>\<open>==\<close>, \<^verbatim>\<open>endswith\<close>
  and \<^verbatim>\<open>startswith\<close> on strings and return. The assertion of STK005 is
  \<^verbatim>\<open>not (f.get("name").startwith('is_') or f.get("name").startwith('is_'))\<close>; a Python
  string has no attribute \<^verbatim>\<open>startwith\<close>, so evaluating it raises \<^verbatim>\<open>AttributeError\<close>
  at the first operand, whatever the name is. STK005 reuses the template of STK004.
\<close>

definition Plugin_init :: "ast \<Rightarrow> string \<Rightarrow> Plugin" where
  "Plugin_init t fn = \<lparr>tree = t, filename = fn, rules = [
     \<lparr>error_code = ''STK001'',
      condition = (\<lambda>f. Inr (base_type f = ''DateTime'')),
      assertion = (\<lambda>f. Inr (endswith (name f) ''_at'' \<or> endswith (name f) ''_dt'')),
      message = message_STK001\<rparr>,
     \<lparr>error_code = ''STK002'',
      condition = (\<lambda>f. Inr (base_type f = ''Date'')),
      assertion = (\<lambda>f. Inr (endswith (name f) ''_date'')),
      message = message_STK002\<rparr>,
     \<lparr>error_code = ''STK003'',
      condition = (\<lambda>f. Inr (name f = ''type'')),
      assertion = (\<lambda>f. Inr (full_type f = ''sqlalchemy.Enum'')),
      message = message_STK003\<rparr>,
     \<lparr>error_code = ''STK004'',
      condition = (\<lambda>f. Inr (name f = ''id'' \<or> endswith (name f) ''_id''
                               \<or> startswith (name f) ''id_'')),
      assertion = (\<lambda>f. Inr (full_type f = ''sqlalchemy.UUID'')),
      message = message_STK004\<rparr>,
     \<lparr>error_code = ''STK005'',
      condition = (\<lambda>f. Inr (base_type f = ''bool'')),
      assertion = (\<lambda>f. Inl AttributeError),
      message = message_STK004\<rparr>]\<rparr>"

section \<open>The type-name resolver\<close>

text \<open>
  \<^verbatim>\<open>Plugin.get_full_name\<close>: a name is its identifier, an attribute access is the name of
  its value, a dot and the attribute (the attribute alone when the value's name is
  empty), a call is the name of the called expression; any other node raises
  \<^verbatim>\<open>ValueError\<close>.
\<close>

fun get_full_name :: "ast \<Rightarrow> error + string" where
  "get_full_name (Name i) = Inr i"
| "get_full_name (Attribute v a) =
     (case get_full_name v of
        Inl e \<Rightarrow> Inl e
      | Inr value \<Rightarrow> Inr (if value \<noteq> [] then value @ ''.'' @ a else a))"
| "get_full_name (Call f as ks) = get_full_name f"
| "get_full_name (Assign ts v l c) = Inl ValueError"
| "get_full_name (Other ns) = Inl ValueError"

text \<open>\<^verbatim>\<open>Plugin.get_base_type_name\<close>: \<^verbatim>\<open>full_name.split(".")[-1]\<close>.\<close>

definition get_base_type_name :: "ast \<Rightarrow> error + string" where
  "get_base_type_name node =
     (case get_full_name node of
        Inl e \<Rightarrow> Inl e
      | Inr full_name \<Rightarrow> Inr (last (str_split (CHR ''.'') full_name)))"

section \<open>The run generator\<close>

text \<open>
  The loop over the rules for one field descriptor (the innermost loop of
  \<^verbatim>\<open>Plugin.run\<close>). Python's \<^verbatim>\<open>and\<close> evaluates the assertion only when the condition
  is true; \<open>lineno\<close> and \<open>col_offset\<close> are those of the assignment node.
\<close>

fun rule_loop :: "Rule list \<Rightarrow> int \<Rightarrow> int \<Rightarrow> FieldInfo \<Rightarrow> diagnostic generator" where
  "rule_loop [] lineno col_offset field_info = ([], None)"
| "rule_loop (rule # rest) lineno col_offset field_info =
     (case condition rule field_info of
        Inl e \<Rightarrow> ([], Some e)
      | Inr False \<Rightarrow> rule_loop rest lineno col_offset field_info
      | Inr True \<Rightarrow>
          (case assertion rule field_info of
             Inl e \<Rightarrow> ([], Some e)
           | Inr True \<Rightarrow> rule_loop rest lineno col_offset field_info
           | Inr False \<Rightarrow>
               then_gen
                 ([(lineno, col_offset,
                    error_code rule @ '': '' @ str_format (message rule) (name field_info),
                    PluginClass)], None)
                 (rule_loop rest lineno col_offset field_info)))"

text \<open>
  The rest of \<^verbatim>\<open>Plugin.run\<close> is modelled with a trace: besides the tuples the generator
  yields, the trace records each descriptor at the point where the code has built it
  (the dictionary \<^verbatim>\<open>field_info\<close>), so that the descriptors of a run can be spoken of.
  The generator itself is the trace without these marks.
\<close>

datatype event = Built FieldInfo | Yielded diagnostic

fun diagnostics_of :: "event list \<Rightarrow> diagnostic list" where
  "diagnostics_of [] = []"
| "diagnostics_of (Yielded d # es) = d # diagnostics_of es"
| "diagnostics_of (Built f # es) = diagnostics_of es"

fun descriptors_of :: "event list \<Rightarrow> FieldInfo list" where
  "descriptors_of [] = []"
| "descriptors_of (Built f # es) = f # descriptors_of es"
| "descriptors_of (Yielded d # es) = descriptors_of es"

definition yielded :: "diagnostic generator \<Rightarrow> event generator" where
  "yielded g = (map Yielded (fst g), snd g)"

definition yields :: "event generator \<Rightarrow> diagnostic generator" where
  "yields g = (diagnostics_of (fst g), snd g)"

text \<open>
  The loop over the targets of one assignment. A target that is not a name is skipped;
  for a name the descriptor is built (both resolver calls may raise) and the rules run.
\<close>

fun target_loop ::
  "Rule list \<Rightarrow> int \<Rightarrow> int \<Rightarrow> ast \<Rightarrow> ast list \<Rightarrow> event generator" where
  "target_loop rs lineno col_offset type_node [] = ([], None)"
| "target_loop rs lineno col_offset type_node (target # rest) =
     (case target of
        Name field_name \<Rightarrow>
          (case get_base_type_name type_node of
             Inl e \<Rightarrow> ([], Some e)
           | Inr base \<Rightarrow>
               (case get_full_name type_node of
                  Inl e \<Rightarrow> ([], Some e)
                | Inr full \<Rightarrow>
                    then_gen
                      ([Built \<lparr>name = field_name, column_type_node = type_node,
                                base_type = base, full_type = full\<rparr>], None)
                      (then_gen
                         (yielded
                            (rule_loop rs lineno col_offset
                               \<lparr>name = field_name, column_type_node = type_node,
                                base_type = base, full_type = full\<rparr>))
                         (target_loop rs lineno col_offset type_node rest))))
      | _ \<Rightarrow> target_loop rs lineno col_offset type_node rest)"

text \<open>
  The body of the loop over the walked nodes: anything but an assignment of a call with
  at least one positional argument is passed over.
\<close>

fun loop_body :: "Rule list \<Rightarrow> ast \<Rightarrow> event generator" where
  "loop_body rs (Assign targets (Call func (arg # args) keywords) lineno col_offset) =
     target_loop rs lineno col_offset arg targets"
| "loop_body rs node = ([], None)"

text \<open>The loop over the walked nodes.\<close>

fun node_loop :: "Rule list \<Rightarrow> ast list \<Rightarrow> event generator" where
  "node_loop rs [] = ([], None)"
| "node_loop rs (node # nodes) = then_gen (loop_body rs node) (node_loop rs nodes)"

text \<open>\<^verbatim>\<open>Plugin.run\<close>: its trace, and the generator.\<close>

definition run_trace :: "Plugin \<Rightarrow> event generator" where
  "run_trace self = node_loop (rules self) (walk (tree self))"

definition run :: "Plugin \<Rightarrow> diagnostic generator" where
  "run self = yields (run_trace self)"

text \<open>What the generator yields while the loop is at one node, and over a list of nodes.\<close>

definition visit :: "Rule list \<Rightarrow> ast \<Rightarrow> diagnostic generator" where
  "visit rs node = yields (loop_body rs node)"

definition run_nodes :: "Rule list \<Rightarrow> ast list \<Rightarrow> diagnostic generator" where
  "run_nodes rs nodes = yields (node_loop rs nodes)"

section \<open>Notions used to state the properties\<close>

subsection \<open>Reading a diagnostic\<close>

definition diag_line :: "diagnostic \<Rightarrow> int" where
  "diag_line d = fst d"

definition diag_column :: "diagnostic \<Rightarrow> int" where
  "diag_column d = fst (snd d)"

definition diag_text :: "diagnostic \<Rightarrow> string" where
  "diag_text d = fst (snd (snd d))"

text \<open>A diagnostic of a rule is recognised by the code and the colon that open its text.\<close>

definition has_code :: "string \<Rightarrow> diagnostic \<Rightarrow> bool" where
  "has_code code d = startswith (diag_text d) (code @ '': '')"

subsection \<open>The rule loop, rule by rule\<close>

text \<open>
  A rule fires on a descriptor when its condition returns true and its assertion returns
  false; it returns when neither call raises (the assertion is called only after a true
  condition).
\<close>

definition fires :: "Rule \<Rightarrow> FieldInfo \<Rightarrow> bool" where
  "fires r f = (condition r f = Inr True \<and> assertion r f = Inr False)"

definition returns :: "Rule \<Rightarrow> FieldInfo \<Rightarrow> bool" where
  "returns r f = (condition r f = Inr False
                  \<or> condition r f = Inr True
                      \<and> (assertion r f = Inr True \<or> assertion r f = Inr False))"

text \<open>The tuple yielded for a rule that fires, and those of a rule list in list order.\<close>

definition diagnostic_of :: "int \<Rightarrow> int \<Rightarrow> FieldInfo \<Rightarrow> Rule \<Rightarrow> diagnostic" where
  "diagnostic_of l c f r =
     (l, c, error_code r @ '': '' @ str_format (message r) (name f), PluginClass)"

definition field_diagnostics ::
  "Rule list \<Rightarrow> int \<Rightarrow> int \<Rightarrow> FieldInfo \<Rightarrow> diagnostic list" where
  "field_diagnostics rs l c f = map (diagnostic_of l c f) (filter (\<lambda>r. fires r f) rs)"

subsection \<open>The descriptors of a node\<close>

text \<open>The identifiers of the targets that are simple names, in target order.\<close>

fun target_names :: "ast list \<Rightarrow> string list" where
  "target_names [] = []"
| "target_names (Name i # rest) = i # target_names rest"
| "target_names (t # rest) = target_names rest"

text \<open>
  The descriptor the code builds for a target named \<open>field_name\<close> when the type
  expression \<open>type_node\<close> has the qualified name \<open>full\<close>.
\<close>

definition descriptor :: "ast \<Rightarrow> string \<Rightarrow> string \<Rightarrow> FieldInfo" where
  "descriptor type_node full field_name =
     \<lparr>name = field_name, column_type_node = type_node,
      base_type = last (str_split (CHR ''.'') full), full_type = full\<rparr>"

text \<open>
  The trace of a descriptor on which every rule returns: the mark of the descriptor, then
  the diagnostics of the rules that fire.
\<close>

definition descriptor_events :: "Rule list \<Rightarrow> int \<Rightarrow> int \<Rightarrow> FieldInfo \<Rightarrow> event list" where
  "descriptor_events rs l c f = Built f # map Yielded (field_diagnostics rs l c f)"

text \<open>
  The target loop on a list of descriptors already built, as a trace and as the
  generator: the rule loop on each in turn; an exception raised in one of them ends the
  whole.
\<close>

fun field_trace ::
  "Rule list \<Rightarrow> int \<Rightarrow> int \<Rightarrow> FieldInfo list \<Rightarrow> event generator" where
  "field_trace rs lineno col_offset [] = ([], None)"
| "field_trace rs lineno col_offset (f # fs) =
     then_gen ([Built f], None)
       (then_gen (yielded (rule_loop rs lineno col_offset f))
          (field_trace rs lineno col_offset fs))"

fun field_loop ::
  "Rule list \<Rightarrow> int \<Rightarrow> int \<Rightarrow> FieldInfo list \<Rightarrow> diagnostic generator" where
  "field_loop rs lineno col_offset [] = ([], None)"
| "field_loop rs lineno col_offset (f # fs) =
     then_gen (rule_loop rs lineno col_offset f) (field_loop rs lineno col_offset fs)"

text \<open>
  The diagnostics of one node in the specification's words: a declaration for each
  simple-name target of an assignment of a call whose first positional argument
  resolves, in target order, and for one declaration the rules that fire, in the order
  of the rule list.
\<close>

fun node_diagnostics :: "Rule list \<Rightarrow> ast \<Rightarrow> diagnostic list" where
  "node_diagnostics rs (Assign targets (Call func (arg # args) keywords) l c) =
     (case get_full_name arg of
        Inl e \<Rightarrow> []
      | Inr full \<Rightarrow>
          concat (map (\<lambda>i. field_diagnostics rs l c (descriptor arg full i))
                      (target_names targets)))"
| "node_diagnostics rs node = []"

subsection \<open>Orders on the nodes of a tree\<close>

text \<open>
  Depth-first pre-order, the order the specification names: a node, then the subtrees
  of its children from first to last.
\<close>

fun preorder :: "ast \<Rightarrow> ast list" where
  "preorder (Name i) = [Name i]"
| "preorder (Attribute v a) = Attribute v a # preorder v"
| "preorder (Call f as ks) =
     Call f as ks # preorder f @ concat (map preorder as) @ concat (map preorder ks)"
| "preorder (Assign ts v l c) = Assign ts v l c # concat (map preorder ts) @ preorder v"
| "preorder (Other ns) = Other ns # concat (map preorder ns)"

text \<open>
  Breadth-first order: the nodes at depth 0, then those at depth 1, and so on, each
  depth from left to right. No node lies deeper than the size of the tree.
\<close>

fun nodes_at :: "nat \<Rightarrow> ast \<Rightarrow> ast list" where
  "nodes_at 0 n = [n]"
| "nodes_at (Suc d) n = concat (map (nodes_at d) (iter_child_nodes n))"

definition breadth_first :: "ast \<Rightarrow> ast list" where
  "breadth_first n = concat (map (\<lambda>d. nodes_at d n) [0..<Suc (size n)])"

subsection \<open>Type expressions\<close>

text \<open>
  A type expression is resolvable when the path the resolver follows (the value of an
  attribute access, the called expression of a call) ends in a name.
\<close>

fun resolvable :: "ast \<Rightarrow> bool" where
  "resolvable (Name i) = True"
| "resolvable (Attribute v a) = resolvable v"
| "resolvable (Call f as ks) = resolvable f"
| "resolvable (Assign ts v l c) = False"
| "resolvable (Other ns) = False"

text \<open>
  The identifiers a parser produces are not empty and hold no dot; \<open>parsed_names\<close> says
  so of every identifier and attribute on the resolver's path.
\<close>

definition is_identifier :: "string \<Rightarrow> bool" where
  "is_identifier s = (s \<noteq> [] \<and> CHR ''.'' \<notin> set s)"

fun parsed_names :: "ast \<Rightarrow> bool" where
  "parsed_names (Name i) = is_identifier i"
| "parsed_names (Attribute v a) = (parsed_names v \<and> is_identifier a)"
| "parsed_names (Call f as ks) = parsed_names f"
| "parsed_names (Assign ts v l c) = False"
| "parsed_names (Other ns) = False"

text \<open>
  The base name in the specification's words: the qualified name split at the dots, the
  last segment that is not empty.
\<close>

definition last_nonempty_segment :: "string \<Rightarrow> string" where
  "last_nonempty_segment full = last (filter (\<lambda>s. s \<noteq> []) (str_split (CHR ''.'') full))"

section \<open>Auxiliary lemmas\<close>

subsection \<open>Generators and traces\<close>

lemma then_gen_simps [simp]:
  "then_gen (ds, None) h = (ds @ fst h, snd h)"
  "then_gen (ds, Some e) h = (ds, Some e)"
  by (simp_all add: then_gen_def)

lemma then_gen_Nil_right [simp]: "then_gen g ([], None) = g"
  by (cases g; cases "snd g") (simp_all add: then_gen_def)

lemma then_gen_assoc: "then_gen (then_gen a b) c = then_gen a (then_gen b c)"
  by (cases a; cases "snd a"; cases b; cases "snd b") (auto simp: then_gen_def)

lemma fst_then_gen_subset: "set (fst (then_gen g h)) \<subseteq> set (fst g) \<union> set (fst h)"
  by (cases g; cases "snd g") (auto simp: then_gen_def)

lemma then_gen_no_error:
  "snd (then_gen g h) = None \<longleftrightarrow> snd g = None \<and> snd h = None"
  by (cases g; cases "snd g") (auto simp: then_gen_def)

lemma fst_then_gen_no_error:
  "snd g = None \<Longrightarrow> fst (then_gen g h) = fst g @ fst h"
  by (simp add: then_gen_def)

lemma then_gen_prefix:
  assumes "\<exists>r. G = fst g @ r" and "snd g = None \<Longrightarrow> fst g = G" and "\<exists>r. H = fst h @ r"
  shows "\<exists>r. G @ H = fst (then_gen g h) @ r"
proof (cases "snd g")
  case None
  with assms(2) have "fst g = G" by simp
  with None assms(3) show ?thesis by (auto simp: then_gen_def)
next
  case (Some e)
  with assms(1) show ?thesis by (auto simp: then_gen_def)
qed

lemma diagnostics_of_append [simp]:
  "diagnostics_of (xs @ ys) = diagnostics_of xs @ diagnostics_of ys"
  by (induction xs rule: diagnostics_of.induct) simp_all

lemma diagnostics_of_Yielded [simp]: "diagnostics_of (map Yielded ds) = ds"
  by (induction ds) simp_all

lemma descriptors_of_append [simp]:
  "descriptors_of (xs @ ys) = descriptors_of xs @ descriptors_of ys"
  by (induction xs rule: descriptors_of.induct) simp_all

lemma descriptors_of_Yielded [simp]: "descriptors_of (map Yielded ds) = []"
  by (induction ds) simp_all

lemma Built_descriptors_of: "Built f \<in> set es \<longleftrightarrow> f \<in> set (descriptors_of es)"
  by (induction es rule: descriptors_of.induct) auto

lemma yields_pair [simp]: "yields (es, e) = (diagnostics_of es, e)"
  by (simp add: yields_def)

lemma yields_yielded [simp]: "yields (yielded g) = g"
  by (simp add: yields_def yielded_def)

lemma yields_then_gen: "yields (then_gen g h) = then_gen (yields g) (yields h)"
  by (cases g; cases "snd g") (auto simp: then_gen_def yields_def)

lemma snd_yields [simp]: "snd (yields g) = snd g"
  by (simp add: yields_def)

subsection \<open>The generator in terms of the walked nodes\<close>

lemma visit_candidate:
  "visit rs (Assign targets (Call func (arg # args) kws) l c)
     = yields (target_loop rs l c arg targets)"
  by (simp add: visit_def)

lemma loop_body_other:
  "(\<And>targets func arg args kws l c. n \<noteq> Assign targets (Call func (arg # args) kws) l c)
   \<Longrightarrow> loop_body rs n = ([], None)"
  by (cases "(rs, n)" rule: loop_body.cases) auto

lemma visit_other:
  "(\<And>targets func arg args kws l c. n \<noteq> Assign targets (Call func (arg # args) kws) l c)
   \<Longrightarrow> visit rs n = ([], None)"
  by (simp add: visit_def loop_body_other)

lemma run_nodes_Nil [simp]: "run_nodes rs [] = ([], None)"
  by (simp add: run_nodes_def)

lemma run_nodes_Cons [simp]:
  "run_nodes rs (n # ns) = then_gen (visit rs n) (run_nodes rs ns)"
  by (simp add: run_nodes_def visit_def yields_then_gen)

lemma run_run_nodes: "run self = run_nodes (rules self) (walk (tree self))"
  by (simp add: run_def run_trace_def run_nodes_def)

lemma node_loop_append:
  "node_loop rs (xs @ ys) = then_gen (node_loop rs xs) (node_loop rs ys)"
  by (induction xs) (simp_all add: then_gen_assoc)

lemma run_nodes_append:
  "run_nodes rs (xs @ ys) = then_gen (run_nodes rs xs) (run_nodes rs ys)"
  by (simp add: run_nodes_def node_loop_append yields_then_gen)

subsection \<open>The resolver\<close>

lemma get_full_name_error: "get_full_name t = Inl e \<Longrightarrow> e = ValueError"
  by (induction t arbitrary: e) (auto split: sum.splits)

lemma resolvable_iff: "resolvable t \<longleftrightarrow> (\<exists>full. get_full_name t = Inr full)"
  by (induction t) (auto split: sum.splits)

lemma not_resolvable_iff: "\<not> resolvable t \<longleftrightarrow> get_full_name t = Inl ValueError"
  by (induction t) (auto split: sum.splits)

lemma str_split_not_Nil: "str_split sep s \<noteq> []"
  by (induction s) (auto split: list.splits)

lemma str_split_no_sep: "sep \<notin> set s \<Longrightarrow> str_split sep s = [s]"
  by (induction s) auto

lemma str_split_append: "str_split sep (xs @ sep # ys) = str_split sep xs @ str_split sep ys"
proof (induction xs)
  case Nil
  then show ?case by simp
next
  case (Cons c xs)
  then show ?case
    using str_split_not_Nil [of sep xs] by (cases "str_split sep xs") auto
qed

lemma parsed_names_segments:
  "parsed_names t \<Longrightarrow>
   \<exists>full. get_full_name t = Inr full \<and> full \<noteq> []
        \<and> list_all (\<lambda>s. s \<noteq> []) (str_split (CHR ''.'') full)"
proof (induction t)
  case (Name i)
  then show ?case by (simp add: is_identifier_def str_split_no_sep)
next
  case (Attribute v a)
  then obtain fv where fv: "get_full_name v = Inr fv" "fv \<noteq> []"
    "list_all (\<lambda>s. s \<noteq> []) (str_split (CHR ''.'') fv)" by auto
  from Attribute.prems have a: "a \<noteq> []" "CHR ''.'' \<notin> set a"
    by (simp_all add: is_identifier_def)
  have "str_split (CHR ''.'') (fv @ CHR ''.'' # a) = str_split (CHR ''.'') fv @ [a]"
    using a by (simp add: str_split_append str_split_no_sep)
  with fv a show ?case by simp
next
  case (Call f as ks)
  then show ?case by simp
qed simp_all

subsection \<open>The target loop\<close>

lemma target_loop_resolved:
  "get_full_name arg = Inr full \<Longrightarrow>
   target_loop rs l c arg ts
     = field_trace rs l c (map (descriptor arg full) (target_names ts))"
proof (induction ts rule: target_names.induct)
qed (simp_all add: get_base_type_name_def descriptor_def)

lemma target_loop_unresolved:
  "get_full_name arg = Inl e \<Longrightarrow>
   target_loop rs l c arg ts = (if target_names ts = [] then ([], None) else ([], Some ValueError))"
proof (induction ts rule: target_names.induct)
qed (auto simp: get_base_type_name_def dest: get_full_name_error)

lemma yields_field_trace: "yields (field_trace rs l c fs) = field_loop rs l c fs"
proof (induction fs)
  case Nil
  then show ?case by simp
next
  case (Cons f fs)
  have "yields (field_trace rs l c (f # fs))
      = then_gen (yields ([Built f], None))
          (then_gen (yields (yielded (rule_loop rs l c f))) (yields (field_trace rs l c fs)))"
    by (simp only: field_trace.simps yields_then_gen)
  with Cons show ?case by simp
qed

lemma visit_resolved:
  "get_full_name arg = Inr full \<Longrightarrow>
   visit rs (Assign ts (Call func (arg # args) kws) l c)
     = field_loop rs l c (map (descriptor arg full) (target_names ts))"
  by (simp add: visit_def target_loop_resolved yields_field_trace)

lemma visit_unresolved:
  "get_full_name arg = Inl e \<Longrightarrow>
   visit rs (Assign ts (Call func (arg # args) kws) l c)
     = (if target_names ts = [] then ([], None) else ([], Some ValueError))"
  by (simp add: visit_def target_loop_unresolved)

subsection \<open>Positions\<close>

lemma rule_loop_position:
  "d \<in> set (fst (rule_loop rs l c f)) \<Longrightarrow> diag_line d = l \<and> diag_column d = c"
proof (induction rs)
  case Nil
  then show ?case by simp
next
  case (Cons r rs)
  then show ?case
    by (auto simp: diag_line_def diag_column_def split: sum.splits bool.splits)
qed

lemma field_loop_position:
  "d \<in> set (fst (field_loop rs l c fs)) \<Longrightarrow> diag_line d = l \<and> diag_column d = c"
proof (induction fs)
  case Nil
  then show ?case by simp
next
  case (Cons f fs)
  then show ?case
    using fst_then_gen_subset [of "rule_loop rs l c f" "field_loop rs l c fs"]
    by (auto dest: rule_loop_position)
qed

lemma visit_position:
  assumes "d \<in> set (fst (visit rs n))"
  shows "\<exists>ts v. n = Assign ts v (diag_line d) (diag_column d)"
proof (cases "\<exists>ts func arg args kws l c. n = Assign ts (Call func (arg # args) kws) l c")
  case False
  then have "visit rs n = ([], None)" by (intro visit_other) blast
  with assms show ?thesis by simp
next
  case True
  then obtain ts func arg args kws l c
    where n: "n = Assign ts (Call func (arg # args) kws) l c" by blast
  show ?thesis
  proof (cases "get_full_name arg")
    case (Inl e)
    with assms show ?thesis unfolding n by (simp add: visit_unresolved split: if_splits)
  next
    case (Inr full)
    with assms have "diag_line d = l \<and> diag_column d = c"
      unfolding n by (auto simp: visit_resolved dest: field_loop_position)
    with n show ?thesis by simp
  qed
qed

lemma run_nodes_member:
  "d \<in> set (fst (run_nodes rs ns)) \<Longrightarrow> \<exists>n \<in> set ns. d \<in> set (fst (visit rs n))"
proof (induction ns)
  case Nil
  then show ?case by simp
next
  case (Cons n ns)
  then show ?case
    using fst_then_gen_subset [of "visit rs n" "run_nodes rs ns"] by auto
qed

subsection \<open>The rule loop\<close>

lemma rule_loop_returns:
  "list_all (\<lambda>r. returns r f) rs \<Longrightarrow> rule_loop rs l c f = (field_diagnostics rs l c f, None)"
proof (induction rs)
  case Nil
  then show ?case by (simp add: field_diagnostics_def)
next
  case (Cons r rs)
  then have tl: "rule_loop rs l c f = (field_diagnostics rs l c f, None)" by simp
  from Cons.prems have "returns r f" by simp
  then consider "condition r f = Inr False"
    | "condition r f = Inr True" "assertion r f = Inr True"
    | "condition r f = Inr True" "assertion r f = Inr False"
    unfolding returns_def by blast
  then show ?case
  proof cases
    case 1
    then show ?thesis using tl by (simp add: field_diagnostics_def fires_def)
  next
    case 2
    then show ?thesis using tl by (simp add: field_diagnostics_def fires_def)
  next
    case 3
    then show ?thesis using tl
      by (simp add: field_diagnostics_def fires_def diagnostic_of_def)
  qed
qed

lemma rule_loop_prefix:
  "(\<exists>rest. field_diagnostics rs l c f = fst (rule_loop rs l c f) @ rest)
   \<and> (snd (rule_loop rs l c f) = None \<longrightarrow> fst (rule_loop rs l c f) = field_diagnostics rs l c f)"
proof (induction rs)
  case Nil
  then show ?case by (simp add: field_diagnostics_def)
next
  case (Cons r rs)
  show ?case
  proof (cases "condition r f")
    case (Inl e)
    then show ?thesis by simp
  next
    case cond: (Inr b)
    show ?thesis
    proof (cases b)
      case False
      with cond Cons show ?thesis by (simp add: field_diagnostics_def fires_def)
    next
      case True
      show ?thesis
      proof (cases "assertion r f")
        case (Inl e)
        with cond True show ?thesis by simp
      next
        case (Inr a)
        with cond True Cons show ?thesis
          by (cases a; cases "rule_loop rs l c f")
             (auto simp: field_diagnostics_def fires_def diagnostic_of_def)
      qed
    qed
  qed
qed

lemma field_loop_prefix:
  "(\<exists>rest. concat (map (field_diagnostics rs l c) fs) = fst (field_loop rs l c fs) @ rest)
   \<and> (snd (field_loop rs l c fs) = None \<longrightarrow>
        fst (field_loop rs l c fs) = concat (map (field_diagnostics rs l c) fs))"
proof (induction fs)
  case Nil
  then show ?case by simp
next
  case (Cons f fs)
  have "\<exists>r. field_diagnostics rs l c f @ concat (map (field_diagnostics rs l c) fs)
      = fst (then_gen (rule_loop rs l c f) (field_loop rs l c fs)) @ r"
    using rule_loop_prefix [of rs l c f] Cons by (intro then_gen_prefix) auto
  moreover have "snd (then_gen (rule_loop rs l c f) (field_loop rs l c fs)) = None \<longrightarrow>
      fst (then_gen (rule_loop rs l c f) (field_loop rs l c fs))
        = field_diagnostics rs l c f @ concat (map (field_diagnostics rs l c) fs)"
    using rule_loop_prefix [of rs l c f] Cons
    by (simp add: then_gen_no_error fst_then_gen_no_error)
  ultimately show ?case by simp
qed

lemma node_diagnostics_other:
  "(\<And>targets func arg args kws l c. n \<noteq> Assign targets (Call func (arg # args) kws) l c)
   \<Longrightarrow> node_diagnostics rs n = []"
  by (cases "(rs, n)" rule: node_diagnostics.cases) auto

lemma visit_prefix:
  "(\<exists>rest. node_diagnostics rs n = fst (visit rs n) @ rest)
   \<and> (snd (visit rs n) = None \<longrightarrow> fst (visit rs n) = node_diagnostics rs n)"
proof (cases "\<exists>ts func arg args kws l c. n = Assign ts (Call func (arg # args) kws) l c")
  case False
  then have "visit rs n = ([], None)" and "node_diagnostics rs n = []"
    by (intro visit_other node_diagnostics_other; blast)+
  then show ?thesis by simp
next
  case True
  then obtain ts func arg args kws l c
    where n: "n = Assign ts (Call func (arg # args) kws) l c" by blast
  show ?thesis
  proof (cases "get_full_name arg")
    case (Inl e)
    then show ?thesis unfolding n by (simp add: visit_unresolved)
  next
    case (Inr full)
    then show ?thesis
      unfolding n
      using field_loop_prefix [of rs l c "map (descriptor arg full) (target_names ts)"]
      by (simp add: visit_resolved comp_def)
  qed
qed

lemma run_nodes_prefix:
  "(\<exists>rest. concat (map (node_diagnostics rs) ns) = fst (run_nodes rs ns) @ rest)
   \<and> (snd (run_nodes rs ns) = None \<longrightarrow>
        fst (run_nodes rs ns) = concat (map (node_diagnostics rs) ns))"
proof (induction ns)
  case Nil
  then show ?case by simp
next
  case (Cons n ns)
  have "\<exists>r. node_diagnostics rs n @ concat (map (node_diagnostics rs) ns)
      = fst (then_gen (visit rs n) (run_nodes rs ns)) @ r"
    using visit_prefix [of rs n] Cons by (intro then_gen_prefix) auto
  moreover have "snd (then_gen (visit rs n) (run_nodes rs ns)) = None \<longrightarrow>
      fst (then_gen (visit rs n) (run_nodes rs ns))
        = node_diagnostics rs n @ concat (map (node_diagnostics rs) ns)"
    using visit_prefix [of rs n] Cons
    by (simp add: then_gen_no_error fst_then_gen_no_error)
  ultimately show ?case by simp
qed

lemma field_trace_returns:
  "list_all (\<lambda>f. list_all (\<lambda>r. returns r f) rs) fs \<Longrightarrow>
   field_trace rs l c fs = (concat (map (descriptor_events rs l c) fs), None)"
  by (induction fs) (simp_all add: rule_loop_returns yielded_def descriptor_events_def)

lemma diagnostics_of_descriptor_events:
  "diagnostics_of (concat (map (descriptor_events rs l c) fs))
     = concat (map (field_diagnostics rs l c) fs)"
  by (induction fs) (simp_all add: descriptor_events_def)

lemma field_trace_first:
  "Built f \<in> set (fst (field_trace rs l c (f # fs)))"
  by simp

lemma field_trace_descriptors:
  "snd (field_trace rs l c fs) = None \<Longrightarrow> descriptors_of (fst (field_trace rs l c fs)) = fs"
proof (induction fs)
  case Nil
  then show ?case by simp
next
  case (Cons f fs)
  from Cons.prems have r: "snd (rule_loop rs l c f) = None"
    and t: "snd (field_trace rs l c fs) = None"
    by (simp_all add: then_gen_no_error yielded_def)
  from t have "descriptors_of (fst (field_trace rs l c fs)) = fs" by (rule Cons.IH)
  with r show ?case
    by (simp add: fst_then_gen_no_error yielded_def)
qed

lemma field_loop_returns:
  "list_all (\<lambda>f. list_all (\<lambda>r. returns r f) rs) fs \<Longrightarrow>
   field_loop rs l c fs = (concat (map (field_diagnostics rs l c) fs), None)"
  by (induction fs) (simp_all add: rule_loop_returns)

lemma loop_body_no_names:
  "target_names ts = [] \<Longrightarrow> loop_body rs (Assign ts v l c) = ([], None)"
proof (cases "\<exists>func arg args kws. v = Call func (arg # args) kws")
  case False
  then show ?thesis by (intro loop_body_other) auto
next
  case True
  assume "target_names ts = []"
  with True show ?thesis
    by (cases "get_full_name (hd (case v of Call f as ks \<Rightarrow> as))")
       (auto simp: target_loop_unresolved target_loop_resolved)
qed

lemma field_diagnostics_position:
  "d \<in> set (field_diagnostics rs l c f) \<Longrightarrow> diag_line d = l \<and> diag_column d = c"
  by (auto simp: field_diagnostics_def diagnostic_of_def diag_line_def diag_column_def)

lemma has_code_diagnostic_of:
  "length (error_code r) = length code \<Longrightarrow>
   has_code code (diagnostic_of l c f r) = (error_code r = code)"
  by (simp add: has_code_def diag_text_def startswith_def diagnostic_of_def)

lemma filter_has_code:
  "list_all (\<lambda>r. length (error_code r) = length code) rs \<Longrightarrow>
   filter (has_code code) (field_diagnostics rs l c f) =
     field_diagnostics (filter (\<lambda>r. error_code r = code) rs) l c f"
proof (induction rs)
  case Nil
  then show ?case by (simp add: field_diagnostics_def)
next
  case (Cons r rs)
  then show ?case
    by (simp add: field_diagnostics_def has_code_diagnostic_of)
qed

lemma rule_loop_append:
  "rule_loop (rs @ rs') l c f = then_gen (rule_loop rs l c f) (rule_loop rs' l c f)"
proof (induction rs)
  case Nil
  then show ?case by simp
next
  case (Cons r rs)
  then show ?case
    by (cases "rule_loop rs l c f"; cases "snd (rule_loop rs l c f)")
       (auto simp: then_gen_def split: sum.splits bool.splits)
qed

subsection \<open>The rule list of the plugin\<close>

lemma plugin_rules_return:
  "base_type f \<noteq> ''bool'' \<Longrightarrow> list_all (\<lambda>r. returns r f) (rules (Plugin_init t fn))"
  by (simp add: Plugin_init_def returns_def) blast

lemma descriptors_return:
  "last (str_split (CHR ''.'') full) \<noteq> ''bool'' \<Longrightarrow>
   list_all (\<lambda>f. list_all (\<lambda>r. returns r f) (rules (Plugin_init t fn)))
     (map (descriptor arg full) names)"
proof (induction names)
  case Nil
  then show ?case by simp
next
  case (Cons i names)
  from Cons.prems have "base_type (descriptor arg full i) \<noteq> ''bool''"
    by (simp add: descriptor_def)
  then have "list_all (\<lambda>r. returns r (descriptor arg full i)) (rules (Plugin_init t fn))"
    by (rule plugin_rules_return)
  with Cons show ?case by simp
qed

lemma STK001_diagnostics:
  "base_type f = ''DateTime'' \<Longrightarrow>
   filter (has_code ''STK001'') (field_diagnostics (rules (Plugin_init t fn)) l c f)
     = (if endswith (name f) ''_at'' \<or> endswith (name f) ''_dt'' then []
        else [(l, c, ''STK001: '' @ str_format message_STK001 (name f), PluginClass)])"
proof -
  assume base: "base_type f = ''DateTime''"
  let ?rs = "rules (Plugin_init t fn)"
  have len: "list_all (\<lambda>r. length (error_code r) = length ''STK001'') ?rs"
    by (simp add: Plugin_init_def)
  have "filter (has_code ''STK001'') (field_diagnostics ?rs l c f) =
      field_diagnostics (filter (\<lambda>r. error_code r = ''STK001'') ?rs) l c f"
    using len by (rule filter_has_code)
  also have "\<dots> = (if endswith (name f) ''_at'' \<or> endswith (name f) ''_dt'' then []
        else [(l, c, ''STK001: '' @ str_format message_STK001 (name f), PluginClass)])"
    using base by (simp add: Plugin_init_def field_diagnostics_def fires_def diagnostic_of_def)
  finally show ?thesis .
qed

lemma STK001_for_names:
  "last (str_split (CHR ''.'') full) = ''DateTime'' \<Longrightarrow>
   filter (has_code ''STK001'')
     (concat (map (field_diagnostics (rules (Plugin_init t fn)) l c)
                  (map (descriptor arg full) names)))
     = map (\<lambda>i. (l, c, ''STK001: '' @ str_format message_STK001 i, PluginClass))
           (filter (\<lambda>i. \<not> (endswith i ''_at'' \<or> endswith i ''_dt'')) names)"
proof (induction names)
  case Nil
  then show ?case by simp
next
  case (Cons i names)
  have "base_type (descriptor arg full i) = ''DateTime''"
    and "name (descriptor arg full i) = i"
    using Cons.prems by (simp_all add: descriptor_def)
  with Cons show ?case by (simp add: STK001_diagnostics)
qed

lemma STK005_bool_field:
  assumes "base_type f = ''bool''"
  shows "snd (rule_loop (rules (Plugin_init t fn)) l c f) = Some AttributeError
       \<and> filter (has_code ''STK005'') (fst (rule_loop (rules (Plugin_init t fn)) l c f)) = []"
proof -
  let ?rs = "butlast (rules (Plugin_init t fn))"
  let ?r5 = "last (rules (Plugin_init t fn))"
  have split: "rules (Plugin_init t fn) = ?rs @ [?r5]"
    by (simp add: Plugin_init_def)
  have ret: "list_all (\<lambda>r. returns r f) ?rs"
    by (simp add: Plugin_init_def returns_def) blast
  have len: "list_all (\<lambda>r. length (error_code r) = length ''STK005'') ?rs"
    by (simp add: Plugin_init_def)
  have four: "rule_loop ?rs l c f = (field_diagnostics ?rs l c f, None)"
    using ret by (rule rule_loop_returns)
  have fifth: "rule_loop [?r5] l c f = ([], Some AttributeError)"
    using assms by (simp add: Plugin_init_def)
  have all: "rule_loop (rules (Plugin_init t fn)) l c f
      = (field_diagnostics ?rs l c f, Some AttributeError)"
    by (subst split, subst rule_loop_append)
       (simp only: four fifth then_gen_simps fst_conv snd_conv append_Nil2)
  have "filter (has_code ''STK005'') (field_diagnostics ?rs l c f) =
      field_diagnostics (filter (\<lambda>r. error_code r = ''STK005'') ?rs) l c f"
    using len by (rule filter_has_code)
  also have "\<dots> = []"
    by (simp add: Plugin_init_def field_diagnostics_def)
  finally show ?thesis using all by simp
qed

subsection \<open>The order of the walk\<close>

lemma walk_queue_append:
  "walk_queue (xs @ ys) = xs @ walk_queue (ys @ concat (map iter_child_nodes xs))"
proof (induction xs arbitrary: ys)
  case Nil
  then show ?case by simp
next
  case (Cons x xs)
  show ?case using Cons [of "ys @ iter_child_nodes x"] by simp
qed

lemma nodes_at_Suc_concat:
  "concat (map (nodes_at (Suc d)) q) = concat (map (nodes_at d) (concat (map iter_child_nodes q)))"
  by (induction q) simp_all

lemma nodes_at_0_concat: "concat (map (nodes_at 0) q) = q"
  by (induction q) simp_all

lemma weight_children:
  "sum_list (map size (concat (map iter_child_nodes q)))
     + length (concat (map iter_child_nodes q)) \<le> sum_list (map size q)"
proof (induction q)
  case Nil
  then show ?case by simp
next
  case (Cons n q)
  have "sum_list (map size (iter_child_nodes n)) + length (iter_child_nodes n) \<le> size n"
    by (cases n) (simp_all add: size_list_conv_sum_list)
  with Cons show ?case by simp
qed

lemma walk_queue_levels:
  "sum_list (map size q) + length q \<le> n \<Longrightarrow>
   walk_queue q = concat (map (\<lambda>d. concat (map (nodes_at d) q)) [0..<n])"
proof (induction n arbitrary: q)
  case 0
  then show ?case by simp
next
  case (Suc n)
  show ?case
  proof (cases "q = []")
    case True
    then show ?thesis by simp
  next
    case False
    let ?cq = "concat (map iter_child_nodes q)"
    from False have "0 < length q" by simp
    with Suc.prems weight_children [of q]
    have "sum_list (map size ?cq) + length ?cq \<le> n" by linarith
    then have IH: "walk_queue ?cq = concat (map (\<lambda>d. concat (map (nodes_at d) ?cq)) [0..<n])"
      by (rule Suc.IH)
    have "walk_queue q = q @ walk_queue ?cq"
      using walk_queue_append [of q "[]"] by simp
    also have "\<dots> = q @ concat (map (\<lambda>d. concat (map (nodes_at (Suc d)) q)) [0..<n])"
      by (simp add: IH nodes_at_Suc_concat)
    also have "\<dots> = concat (map (\<lambda>d. concat (map (nodes_at d) q)) (0 # map Suc [0..<n]))"
      by (simp add: comp_def nodes_at_0_concat)
    also have "0 # map Suc [0..<n] = [0..<Suc n]"
      by (simp add: map_Suc_upt upt_conv_Cons del: upt_Suc)
    finally show ?thesis .
  qed
qed

lemma walk_breadth_first: "walk n = breadth_first n"
  using walk_queue_levels [of "[n]" "Suc (size n)"]
  by (simp add: walk_def breadth_first_def del: upt_Suc)

section \<open>The claims\<close>

subsection \<open>C1: boolean fields and STK005\<close>

text \<open>
  C1 says that every field whose base type is \<^verbatim>\<open>bool\<close> gets exactly one STK005
  diagnostic. The assertion of STK005 calls \<^verbatim>\<open>startwith\<close>, which no string has, so the
  rule raises \<^verbatim>\<open>AttributeError\<close> instead of returning: the run over the tree of
  \<^verbatim>\<open>active = Column(bool)\<close> yields nothing and ends with that exception.
\<close>

theorem STK005_raises_AttributeError:
  "run (Plugin_init
          (Other [Assign [Name ''active''] (Call (Name ''Column'') [Name ''bool''] []) 1 0])
          ''models.py'')
     = ([], Some AttributeError)"
  by (simp add: run_def run_trace_def yielded_def Plugin_init_def walk_def
        get_base_type_name_def endswith_def startswith_def)

subsection \<open>C2: a type expression that does not resolve\<close>

text \<open>
  C2 says that a type expression the resolver cannot handle is recovered from: the
  declaration is dropped and the others are still processed. At the tree of
  \<^verbatim>\<open>limit = Column(10)\<close> followed by \<^verbatim>\<open>created = Column(DateTime)\<close> the run ends with
  \<^verbatim>\<open>ValueError\<close> and the second declaration, which breaks STK001, is never reached.
\<close>

theorem unresolved_type_counterexample:
  "run (Plugin_init
          (Other [Assign [Name ''limit''] (Call (Name ''Column'') [Other []] []) 1 0,
                  Assign [Name ''created''] (Call (Name ''Column'') [Name ''DateTime''] []) 2 0])
          ''models.py'')
     = ([], Some ValueError)"
  by (simp add: run_def run_trace_def yielded_def Plugin_init_def walk_def
        get_base_type_name_def)

text \<open>
  C2 as amended: when the walk reaches an assignment of a call with a positional argument
  that has a simple-name target and whose first argument is not resolvable, visiting it
  yields no diagnostic and raises \<^verbatim>\<open>ValueError\<close>; the exception leaves \<^verbatim>\<open>run\<close>, which
  keeps the diagnostics yielded before and processes no later node.
\<close>

theorem unresolved_type_propagates:
  assumes "walk (tree self) = before @ Assign targets (Call func (arg # args) kws) l c # after"
    and "run_nodes (rules self) before = (ds, None)"
    and "target_names targets \<noteq> []"
    and "\<not> resolvable arg"
  shows "visit (rules self) (Assign targets (Call func (arg # args) kws) l c)
           = ([], Some ValueError)
       \<and> run self = (ds, Some ValueError)"
proof -
  from assms(4) have "get_full_name arg = Inl ValueError"
    by (simp add: not_resolvable_iff)
  with assms(3)
  have v: "visit (rules self) (Assign targets (Call func (arg # args) kws) l c)
      = ([], Some ValueError)"
    by (simp add: visit_unresolved)
  have "run self = then_gen (run_nodes (rules self) before)
      (run_nodes (rules self) (Assign targets (Call func (arg # args) kws) l c # after))"
    unfolding run_run_nodes assms(1) by (rule run_nodes_append)
  also have "\<dots> = (ds, Some ValueError)"
    using v assms(2) by simp
  finally show ?thesis using v by simp
qed

theorem unresolved_type_propagates_witness:
  "walk (tree (Plugin_init
          (Other [Assign [Name ''created''] (Call (Name ''Column'') [Name ''DateTime''] []) 1 0,
                  Assign [Name ''limit''] (Call (Name ''Column'') [Other []] []) 2 0])
          ''models.py''))
     = [Other [Assign [Name ''created''] (Call (Name ''Column'') [Name ''DateTime''] []) 1 0,
               Assign [Name ''limit''] (Call (Name ''Column'') [Other []] []) 2 0],
        Assign [Name ''created''] (Call (Name ''Column'') [Name ''DateTime''] []) 1 0]
       @ Assign [Name ''limit''] (Call (Name ''Column'') [Other []] []) 2 0
       # [Name ''created'', Call (Name ''Column'') [Name ''DateTime''] [],
          Name ''limit'', Call (Name ''Column'') [Other []] [],
          Name ''Column'', Name ''DateTime'', Name ''Column'', Other []]
   \<and> target_names [Name ''limit''] \<noteq> []
   \<and> \<not> resolvable (Other [])
   \<and> run (Plugin_init
          (Other [Assign [Name ''created''] (Call (Name ''Column'') [Name ''DateTime''] []) 1 0,
                  Assign [Name ''limit''] (Call (Name ''Column'') [Other []] []) 2 0])
          ''models.py'')
     = ([(1, 0, ''STK001: '' @ str_format message_STK001 ''created'', PluginClass)],
        Some ValueError)"
proof -
  let ?a = "Assign [Name ''created''] (Call (Name ''Column'') [Name ''DateTime''] []) 1 0"
  let ?b = "Assign [Name ''limit''] (Call (Name ''Column'') [Other []] []) 2 0"
  let ?p = "Plugin_init (Other [?a, ?b]) ''models.py''"
  have w: "walk (tree ?p) = [Other [?a, ?b], ?a] @ ?b
      # [Name ''created'', Call (Name ''Column'') [Name ''DateTime''] [],
         Name ''limit'', Call (Name ''Column'') [Other []] [],
         Name ''Column'', Name ''DateTime'', Name ''Column'', Other []]"
    by (simp add: Plugin_init_def walk_def)
  have b: "run_nodes (rules ?p) [Other [?a, ?b], ?a]
      = ([(1, 0, ''STK001: '' @ str_format message_STK001 ''created'', PluginClass)], None)"
    by (simp add: run_nodes_def yielded_def Plugin_init_def get_base_type_name_def
          endswith_def startswith_def)
  have n: "target_names [Name ''limit''] \<noteq> []" by simp
  have r: "\<not> resolvable (Other [])" by simp
  show ?thesis
    using w n r unresolved_type_propagates [OF w b n r] by simp
qed

subsection \<open>C3: the order of the diagnostics\<close>

text \<open>
  C3 says that the declarations are visited in depth-first pre-order, that is in document
  order. For
  \<^verbatim>\<open>class M:\<close> / \<^verbatim>\<open>    created = Column(DateTime)\<close> / \<^verbatim>\<open>updated = Column(DateTime)\<close>
  the run reports line 3 before line 2, where pre-order gives line 2 before line 3.
\<close>

theorem walk_order_counterexample:
  "map diag_line (fst (run (Plugin_init
      (Other [Other [Assign [Name ''created''] (Call (Name ''Column'') [Name ''DateTime''] []) 2 4],
              Assign [Name ''updated''] (Call (Name ''Column'') [Name ''DateTime''] []) 3 0])
      ''models.py''))) = [3, 2]
   \<and> map diag_line (fst (run_nodes
      (rules (Plugin_init
         (Other [Other [Assign [Name ''created''] (Call (Name ''Column'') [Name ''DateTime''] []) 2 4],
                 Assign [Name ''updated''] (Call (Name ''Column'') [Name ''DateTime''] []) 3 0])
         ''models.py''))
      (preorder
         (Other [Other [Assign [Name ''created''] (Call (Name ''Column'') [Name ''DateTime''] []) 2 4],
                 Assign [Name ''updated''] (Call (Name ''Column'') [Name ''DateTime''] []) 3 0]))))
     = [2, 3]"
  by (simp add: run_def run_trace_def run_nodes_def yielded_def Plugin_init_def walk_def
        get_base_type_name_def endswith_def startswith_def diag_line_def)

text \<open>
  C3 as amended: in every run the nodes are visited in breadth-first order (all nodes of
  one depth, left to right, before the next depth), and the diagnostics of the run are an
  initial part of the sequence that lists, node by node in that order, the declarations
  of the node in target order and, for one declaration, the rules that fire in the order
  of the rule list: the whole sequence when the run ends without an exception, and the
  part yielded before the exception otherwise.
\<close>

theorem diagnostics_breadth_first:
  "walk (tree self) = breadth_first (tree self)
   \<and> (\<exists>rest. concat (map (node_diagnostics (rules self)) (breadth_first (tree self)))
               = fst (run self) @ rest)
   \<and> (snd (run self) = None \<longrightarrow>
        fst (run self)
          = concat (map (node_diagnostics (rules self)) (breadth_first (tree self))))"
  using run_nodes_prefix [of "rules self" "walk (tree self)"]
  by (simp add: run_run_nodes walk_breadth_first)

theorem diagnostics_breadth_first_witness:
  "snd (run (Plugin_init
      (Other [Other [Assign [Name ''created''] (Call (Name ''Column'') [Name ''DateTime''] []) 2 4],
              Assign [Name ''updated''] (Call (Name ''Column'') [Name ''DateTime''] []) 3 0])
      ''models.py'')) = None
   \<and> fst (run (Plugin_init
      (Other [Other [Assign [Name ''created''] (Call (Name ''Column'') [Name ''DateTime''] []) 2 4],
              Assign [Name ''updated''] (Call (Name ''Column'') [Name ''DateTime''] []) 3 0])
      ''models.py''))
     = concat (map (node_diagnostics (rules (Plugin_init
      (Other [Other [Assign [Name ''created''] (Call (Name ''Column'') [Name ''DateTime''] []) 2 4],
              Assign [Name ''updated''] (Call (Name ''Column'') [Name ''DateTime''] []) 3 0])
      ''models.py'')))
        (breadth_first (tree (Plugin_init
      (Other [Other [Assign [Name ''created''] (Call (Name ''Column'') [Name ''DateTime''] []) 2 4],
              Assign [Name ''updated''] (Call (Name ''Column'') [Name ''DateTime''] []) 3 0])
      ''models.py''))))
   \<and> map diag_line (fst (run (Plugin_init
      (Other [Other [Assign [Name ''created''] (Call (Name ''Column'') [Name ''DateTime''] []) 2 4],
              Assign [Name ''updated''] (Call (Name ''Column'') [Name ''DateTime''] []) 3 0])
      ''models.py''))) = [3, 2]
   \<and> run (Plugin_init
      (Other [Assign [Name ''created''] (Call (Name ''Column'') [Name ''DateTime''] []) 1 0,
              Assign [Name ''limit''] (Call (Name ''Column'') [Other []] []) 2 0])
      ''models.py'')
     = ([(1, 0, ''STK001: '' @ str_format message_STK001 ''created'', PluginClass)],
        Some ValueError)
   \<and> (\<exists>rest. concat (map (node_diagnostics (rules (Plugin_init
      (Other [Assign [Name ''created''] (Call (Name ''Column'') [Name ''DateTime''] []) 1 0,
              Assign [Name ''limit''] (Call (Name ''Column'') [Other []] []) 2 0])
      ''models.py'')))
        (breadth_first (tree (Plugin_init
      (Other [Assign [Name ''created''] (Call (Name ''Column'') [Name ''DateTime''] []) 1 0,
              Assign [Name ''limit''] (Call (Name ''Column'') [Other []] []) 2 0])
      ''models.py''))))
     = fst (run (Plugin_init
      (Other [Assign [Name ''created''] (Call (Name ''Column'') [Name ''DateTime''] []) 1 0,
              Assign [Name ''limit''] (Call (Name ''Column'') [Other []] []) 2 0])
      ''models.py'')) @ rest)"
proof -
  let ?q = "Plugin_init
      (Other [Assign [Name ''created''] (Call (Name ''Column'') [Name ''DateTime''] []) 1 0,
              Assign [Name ''limit''] (Call (Name ''Column'') [Other []] []) 2 0])
      ''models.py''"
  have q: "run ?q
      = ([(1, 0, ''STK001: '' @ str_format message_STK001 ''created'', PluginClass)],
         Some ValueError)"
    by (simp add: run_def run_trace_def yielded_def Plugin_init_def walk_def
          get_base_type_name_def endswith_def startswith_def)
  note part = diagnostics_breadth_first [of ?q, THEN conjunct2, THEN conjunct1]
  let ?p = "Plugin_init
      (Other [Other [Assign [Name ''created''] (Call (Name ''Column'') [Name ''DateTime''] []) 2 4],
              Assign [Name ''updated''] (Call (Name ''Column'') [Name ''DateTime''] []) 3 0])
      ''models.py''"
  have h: "snd (run ?p) = None"
    by (simp add: run_def run_trace_def yielded_def Plugin_init_def walk_def
          get_base_type_name_def endswith_def startswith_def)
  have l: "map diag_line (fst (run ?p)) = [3, 2]"
    by (simp add: run_def run_trace_def yielded_def Plugin_init_def walk_def
          get_base_type_name_def endswith_def startswith_def diag_line_def)
  from h diagnostics_breadth_first [of ?p, THEN conjunct2, THEN conjunct2]
  have "fst (run ?p)
      = concat (map (node_diagnostics (rules ?p)) (breadth_first (tree ?p)))" by blast
  with h l q part show ?thesis by blast
qed

subsection \<open>C4: the position of a diagnostic\<close>

text \<open>
  C4 says that the line and the column of a diagnostic are both 1-based. The column is
  the node's \<^verbatim>\<open>col_offset\<close>, which counts from 0: for \<^verbatim>\<open>created = Column(DateTime())\<close>
  on the first line, starting at the margin, the diagnostic has column 0.
\<close>

theorem column_counterexample:
  "map diag_column (fst (run (Plugin_init
      (Other [Assign [Name ''created'']
                (Call (Name ''Column'') [Call (Name ''DateTime'') [] []] []) 1 0])
      ''models.py''))) = [0]"
  by (simp add: run_def run_trace_def yielded_def Plugin_init_def walk_def
        get_base_type_name_def endswith_def startswith_def diag_column_def)

text \<open>
  C4 as amended: every diagnostic of a run is yielded while the loop is at an assignment
  node of the walked tree, the node that triggers it, and its line and column are the
  \<^verbatim>\<open>lineno\<close> and the \<^verbatim>\<open>col_offset\<close> of that node, passed on unchanged (so 1-based and
  0-based, as the parser numbers them).
\<close>

theorem diagnostic_position:
  assumes "d \<in> set (fst (run self))"
  shows "\<exists>n targets v. n \<in> set (walk (tree self))
           \<and> d \<in> set (fst (visit (rules self) n))
           \<and> n = Assign targets v (diag_line d) (diag_column d)"
proof -
  from assms obtain n where n: "n \<in> set (walk (tree self))"
    and d: "d \<in> set (fst (visit (rules self) n))"
    unfolding run_run_nodes by (blast dest: run_nodes_member)
  from d obtain ts v where "n = Assign ts v (diag_line d) (diag_column d)"
    by (blast dest: visit_position)
  with n d show ?thesis by blast
qed

theorem diagnostic_position_witness:
  "(5, 4, ''STK001: '' @ str_format message_STK001 ''updated'', PluginClass)
     \<in> set (fst (run (Plugin_init
          (Other [Assign [Name ''created''] (Call (Name ''Column'') [Name ''DateTime''] []) 1 0,
                  Other [Assign [Name ''updated''] (Call (Name ''Column'') [Name ''DateTime''] []) 5 4]])
          ''models.py'')))
   \<and> (\<exists>n targets v.
         n \<in> set (walk (tree (Plugin_init
          (Other [Assign [Name ''created''] (Call (Name ''Column'') [Name ''DateTime''] []) 1 0,
                  Other [Assign [Name ''updated''] (Call (Name ''Column'') [Name ''DateTime''] []) 5 4]])
          ''models.py'')))
         \<and> (5, 4, ''STK001: '' @ str_format message_STK001 ''updated'', PluginClass)
             \<in> set (fst (visit (rules (Plugin_init
          (Other [Assign [Name ''created''] (Call (Name ''Column'') [Name ''DateTime''] []) 1 0,
                  Other [Assign [Name ''updated''] (Call (Name ''Column'') [Name ''DateTime''] []) 5 4]])
          ''models.py'')) n))
         \<and> n = Assign targets v 5 4)"
proof -
  let ?d = "(5::int, 4::int, ''STK001: '' @ str_format message_STK001 ''updated'', PluginClass)"
  let ?p = "Plugin_init
          (Other [Assign [Name ''created''] (Call (Name ''Column'') [Name ''DateTime''] []) 1 0,
                  Other [Assign [Name ''updated''] (Call (Name ''Column'') [Name ''DateTime''] []) 5 4]])
          ''models.py''"
  have h: "?d \<in> set (fst (run ?p))"
    by (simp add: run_def run_trace_def yielded_def Plugin_init_def walk_def
          get_base_type_name_def endswith_def startswith_def)
  have "diag_line ?d = 5" and "diag_column ?d = 4"
    by (simp_all add: diag_line_def diag_column_def)
  with h diagnostic_position [OF h] show ?thesis by simp
qed

subsection \<open>C5: the nodes that yield a descriptor\<close>

text \<open>
  C5 says that only a single-target assignment yields a descriptor. The loop runs over
  all targets: for \<^verbatim>\<open>a = b = Column(DateTime)\<close> the run builds a descriptor for \<^verbatim>\<open>a\<close> and
  one for \<^verbatim>\<open>b\<close> and reports both.
\<close>

theorem single_target_counterexample:
  "descriptors_of (fst (run_trace (Plugin_init
        (Other [Assign [Name ''a'', Name ''b''] (Call (Name ''Column'') [Name ''DateTime''] []) 1 0])
        ''models.py'')))
     = [\<lparr>name = ''a'', column_type_node = Name ''DateTime'',
          base_type = ''DateTime'', full_type = ''DateTime''\<rparr>,
        \<lparr>name = ''b'', column_type_node = Name ''DateTime'',
          base_type = ''DateTime'', full_type = ''DateTime''\<rparr>]
   \<and> run (Plugin_init
        (Other [Assign [Name ''a'', Name ''b''] (Call (Name ''Column'') [Name ''DateTime''] []) 1 0])
        ''models.py'')
     = ([(1, 0, ''STK001: '' @ str_format message_STK001 ''a'', PluginClass),
         (1, 0, ''STK001: '' @ str_format message_STK001 ''b'', PluginClass)], None)"
  by (simp add: run_def run_trace_def yielded_def Plugin_init_def walk_def
        get_base_type_name_def endswith_def startswith_def)

text \<open>
  C5 as amended: while the loop is at a node, a descriptor is built if and only if the
  node is an assignment, with any number of targets, whose right-hand side is a call with
  at least one positional argument, which has at least one simple-name target and whose
  first positional argument is resolvable; when no exception is raised at the node, one
  descriptor is built for each simple-name target, in target order. An assignment without
  a simple-name target (tuple, attribute or subscript targets only) is passed over: no
  descriptor, no diagnostic, no exception, and the run is the same with and without it.
  When the walk reaches a node, the trace of the run goes on with the trace of that node.
\<close>

theorem field_descriptor_iff:
  "((\<exists>f. Built f \<in> set (fst (loop_body rs n))) \<longleftrightarrow>
      (\<exists>targets func arg args kws l c.
          n = Assign targets (Call func (arg # args) kws) l c
          \<and> target_names targets \<noteq> [] \<and> resolvable arg))
   \<and> (snd (loop_body rs (Assign ts (Call func' (arg' # args') kws') l' c')) = None \<longrightarrow>
        map name (descriptors_of
                    (fst (loop_body rs (Assign ts (Call func' (arg' # args') kws') l' c'))))
          = target_names ts)
   \<and> (target_names ts = [] \<longrightarrow>
        loop_body rs (Assign ts v l' c') = ([], None)
        \<and> node_loop rs (before @ Assign ts v l' c' # after) = node_loop rs (before @ after))
   \<and> (walk (tree self) = before' @ n # after' \<and> node_loop (rules self) before' = (evs, None)
        \<longrightarrow> run_trace self
              = then_gen (evs, None)
                  (then_gen (loop_body (rules self) n) (node_loop (rules self) after')))"
proof (intro conjI impI)
  show "(\<exists>f. Built f \<in> set (fst (loop_body rs n))) \<longleftrightarrow>
      (\<exists>targets func arg args kws l c.
          n = Assign targets (Call func (arg # args) kws) l c
          \<and> target_names targets \<noteq> [] \<and> resolvable arg)"
  proof
    assume "\<exists>f. Built f \<in> set (fst (loop_body rs n))"
    then obtain f where y: "Built f \<in> set (fst (loop_body rs n))" by blast
    have "\<exists>targets func arg args kws l c. n = Assign targets (Call func (arg # args) kws) l c"
    proof (rule ccontr)
      assume "\<not> ?thesis"
      then have "loop_body rs n = ([], None)" by (intro loop_body_other) blast
      with y show False by simp
    qed
    then obtain targets func arg args kws l c
      where n: "n = Assign targets (Call func (arg # args) kws) l c" by blast
    have r: "resolvable arg"
    proof (rule ccontr)
      assume "\<not> resolvable arg"
      then have "get_full_name arg = Inl ValueError" by (simp add: not_resolvable_iff)
      with y n show False by (simp add: target_loop_unresolved split: if_splits)
    qed
    then obtain full where "get_full_name arg = Inr full" by (auto simp: resolvable_iff)
    with y n have "target_names targets \<noteq> []"
      by (auto simp: target_loop_resolved)
    with n r show "\<exists>targets func arg args kws l c.
          n = Assign targets (Call func (arg # args) kws) l c
          \<and> target_names targets \<noteq> [] \<and> resolvable arg" by blast
  next
    assume "\<exists>targets func arg args kws l c.
          n = Assign targets (Call func (arg # args) kws) l c
          \<and> target_names targets \<noteq> [] \<and> resolvable arg"
    then obtain targets func arg args kws l c full
      where n: "n = Assign targets (Call func (arg # args) kws) l c"
        and t: "target_names targets \<noteq> []" and g: "get_full_name arg = Inr full"
      by (auto simp: resolvable_iff)
    from t obtain i rest where "target_names targets = i # rest"
      by (cases "target_names targets") auto
    with n g have "Built (descriptor arg full i) \<in> set (fst (loop_body rs n))"
      by (simp add: target_loop_resolved)
    then show "\<exists>f. Built f \<in> set (fst (loop_body rs n))" by blast
  qed
next
  assume ok: "snd (loop_body rs (Assign ts (Call func' (arg' # args') kws') l' c')) = None"
  show "map name (descriptors_of
                    (fst (loop_body rs (Assign ts (Call func' (arg' # args') kws') l' c'))))
          = target_names ts"
  proof (cases "get_full_name arg'")
    case (Inl e)
    with ok show ?thesis by (simp add: target_loop_unresolved split: if_splits)
  next
    case (Inr full)
    with ok have "descriptors_of
        (fst (field_trace rs l' c' (map (descriptor arg' full) (target_names ts))))
        = map (descriptor arg' full) (target_names ts)"
      by (intro field_trace_descriptors) (simp add: target_loop_resolved)
    with Inr show ?thesis
      by (simp add: target_loop_resolved comp_def descriptor_def)
  qed
next
  assume "target_names ts = []"
  then show "loop_body rs (Assign ts v l' c') = ([], None)"
    by (rule loop_body_no_names)
next
  assume "target_names ts = []"
  then have "loop_body rs (Assign ts v l' c') = ([], None)"
    by (rule loop_body_no_names)
  then show "node_loop rs (before @ Assign ts v l' c' # after) = node_loop rs (before @ after)"
    by (simp add: node_loop_append del: loop_body.simps)
next
  assume "walk (tree self) = before' @ n # after' \<and> node_loop (rules self) before' = (evs, None)"
  then show "run_trace self
      = then_gen (evs, None)
          (then_gen (loop_body (rules self) n) (node_loop (rules self) after'))"
    by (simp add: run_trace_def node_loop_append del: then_gen_simps)
qed

theorem field_descriptor_iff_witness:
  "(\<exists>f. Built f \<in> set (fst (loop_body (rules (Plugin_init (Other []) ''models.py''))
        (Assign [Other [Name ''x'', Name ''y''], Name ''b'']
           (Call (Name ''Column'') [Name ''DateTime''] []) 1 0))))
   \<and> map name (descriptors_of
        (fst (loop_body (rules (Plugin_init (Other []) ''models.py''))
           (Assign [Name ''a'', Other [Name ''x'', Name ''y''], Name ''b'']
              (Call (Name ''Column'') [Name ''DateTime''] []) 1 0))))
     = [''a'', ''b'']
   \<and> target_names [Other [Name ''x'', Name ''y'']] = []
   \<and> loop_body (rules (Plugin_init (Other []) ''models.py''))
        (Assign [Other [Name ''x'', Name ''y'']]
           (Call (Name ''Column'') [Name ''DateTime''] []) 1 0) = ([], None)"
proof -
  let ?rs = "rules (Plugin_init (Other []) ''models.py'')"
  let ?v = "Call (Name ''Column'') [Name ''DateTime''] []"
  let ?n = "Assign [Other [Name ''x'', Name ''y''], Name ''b''] ?v 1 0"
  let ?m = "Assign [Name ''a'', Other [Name ''x'', Name ''y''], Name ''b''] ?v 1 0"
  have rhs: "\<exists>targets func arg args kws l c.
          ?n = Assign targets (Call func (arg # args) kws) l c
          \<and> target_names targets \<noteq> [] \<and> resolvable arg" by simp
  have ok: "snd (loop_body ?rs ?m) = None"
    by (simp add: yielded_def Plugin_init_def get_base_type_name_def endswith_def
          startswith_def)
  have t: "target_names [Other [Name ''x'', Name ''y'']] = []" by simp
  have "\<exists>f. Built f \<in> set (fst (loop_body ?rs ?n))"
    using rhs field_descriptor_iff [where rs = ?rs and n = ?n, THEN conjunct1] by blast
  moreover have "map name (descriptors_of (fst (loop_body ?rs ?m)))
      = target_names [Name ''a'', Other [Name ''x'', Name ''y''], Name ''b'']"
    using ok
      field_descriptor_iff [where rs = ?rs
        and ts = "[Name ''a'', Other [Name ''x'', Name ''y''], Name ''b'']"
        and func' = "Name ''Column''" and arg' = "Name ''DateTime''" and args' = "[]"
        and kws' = "[]" and l' = 1 and c' = 0, THEN conjunct2, THEN conjunct1]
    by blast
  moreover have "loop_body ?rs (Assign [Other [Name ''x'', Name ''y'']] ?v 1 0) = ([], None)"
    using t
      field_descriptor_iff [where rs = ?rs and ts = "[Other [Name ''x'', Name ''y'']]"
        and v = ?v and l' = 1 and c' = 0, THEN conjunct2, THEN conjunct2, THEN conjunct1]
    by blast
  ultimately show ?thesis using t by simp
qed

subsection \<open>C6: the resolver\<close>

text \<open>
  C6 says that the base name is the last segment of the qualified name that is not
  empty. The code takes the last segment, empty or not: for an attribute access with the
  empty attribute name on \<^verbatim>\<open>sa\<close> (the claim itself provides for empty names) the
  qualified name is \<^verbatim>\<open>sa.\<close>, the base name is empty, and the last segment that is not
  empty is \<^verbatim>\<open>sa\<close>.
\<close>

theorem base_name_counterexample:
  "get_full_name (Attribute (Name ''sa'') []) = Inr ''sa.''
   \<and> get_base_type_name (Attribute (Name ''sa'') []) = Inr []
   \<and> last_nonempty_segment ''sa.'' = ''sa''"
  by (simp add: get_base_type_name_def last_nonempty_segment_def)

text \<open>
  C6 as amended: a name resolves to its identifier; an attribute access resolves to
  the name of its base, a dot and the attribute, or to the attribute alone when the name
  of the base is empty; a call resolves to the name of the called expression, whatever
  its arguments; the base name is the last dot-separated segment of the qualified name,
  which may be empty. When every identifier and attribute on the resolver's path is not
  empty and holds no dot, as in a parsed tree, the expression resolves and the base name
  is the last segment that is not empty.
\<close>

theorem resolver_equations:
  "get_full_name (Name i) = Inr i
   \<and> get_full_name (Attribute v a) =
       (case get_full_name v of
          Inl e \<Rightarrow> Inl e
        | Inr b \<Rightarrow> Inr (if b = [] then a else b @ ''.'' @ a))
   \<and> get_full_name (Call f as ks) = get_full_name f
   \<and> (get_full_name t = Inr full \<longrightarrow>
        get_base_type_name t = Inr (last (str_split (CHR ''.'') full)))
   \<and> (parsed_names t \<longrightarrow>
        (\<exists>full. get_full_name t = Inr full
               \<and> get_base_type_name t = Inr (last_nonempty_segment full)
               \<and> last_nonempty_segment full \<noteq> []))"
proof (intro conjI impI)
  show "get_full_name (Attribute v a) =
       (case get_full_name v of
          Inl e \<Rightarrow> Inl e
        | Inr b \<Rightarrow> Inr (if b = [] then a else b @ ''.'' @ a))"
    by (simp split: sum.splits)
next
  assume "parsed_names t"
  then obtain full where full: "get_full_name t = Inr full"
    and segs: "list_all (\<lambda>s. s \<noteq> []) (str_split (CHR ''.'') full)"
    by (blast dest: parsed_names_segments)
  from segs have same: "filter (\<lambda>s. s \<noteq> []) (str_split (CHR ''.'') full)
      = str_split (CHR ''.'') full"
    by (simp add: list_all_iff)
  have "last (str_split (CHR ''.'') full) \<in> set (str_split (CHR ''.'') full)"
    by (simp add: str_split_not_Nil)
  with segs have "last (str_split (CHR ''.'') full) \<noteq> []"
    by (simp add: list_all_iff)
  with full same
  show "\<exists>full. get_full_name t = Inr full
               \<and> get_base_type_name t = Inr (last_nonempty_segment full)
               \<and> last_nonempty_segment full \<noteq> []"
    by (simp add: get_base_type_name_def last_nonempty_segment_def)
qed (simp_all add: get_base_type_name_def)

theorem resolver_equations_witness:
  "get_full_name (Call (Attribute (Name ''sqlalchemy'') ''DateTime'') [] [])
     = Inr ''sqlalchemy.DateTime''
   \<and> parsed_names (Call (Attribute (Name ''sqlalchemy'') ''DateTime'') [] [])
   \<and> get_base_type_name (Call (Attribute (Name ''sqlalchemy'') ''DateTime'') [] [])
     = Inr ''DateTime''
   \<and> last_nonempty_segment ''sqlalchemy.DateTime'' = ''DateTime''"
proof -
  let ?t = "Call (Attribute (Name ''sqlalchemy'') ''DateTime'') [] []"
  have g: "get_full_name ?t = Inr ''sqlalchemy.DateTime''" by simp
  have p: "parsed_names ?t" by (simp add: is_identifier_def)
  from resolver_equations [where t = ?t and full = "''sqlalchemy.DateTime''"] g p
  have b: "get_base_type_name ?t = Inr (last (str_split (CHR ''.'') ''sqlalchemy.DateTime''))"
    and "\<exists>full. get_full_name ?t = Inr full
               \<and> get_base_type_name ?t = Inr (last_nonempty_segment full)
               \<and> last_nonempty_segment full \<noteq> []"
    by blast+
  with g have "get_base_type_name ?t = Inr (last_nonempty_segment ''sqlalchemy.DateTime'')"
    by auto
  with b g p show ?thesis by simp
qed

subsection \<open>C7: STK001\<close>

text \<open>
  C7 says that every declaration whose base type is \<^verbatim>\<open>DateTime\<close> and whose name ends in
  neither \<^verbatim>\<open>_at\<close> nor \<^verbatim>\<open>_dt\<close> gets exactly one STK001 diagnostic. For
  \<^verbatim>\<open>price = Numeric(10, 2)\<close> followed by \<^verbatim>\<open>created = Column(DateTime())\<close> the run ends
  with \<^verbatim>\<open>ValueError\<close> at the first statement and yields no STK001 diagnostic for the
  second.
\<close>

theorem STK001_counterexample:
  "get_base_type_name (Call (Name ''DateTime'') [] []) = Inr ''DateTime''
   \<and> \<not> endswith ''created'' ''_at''
   \<and> \<not> endswith ''created'' ''_dt''
   \<and> run (Plugin_init
        (Other [Assign [Name ''price''] (Call (Name ''Numeric'') [Other [], Other []] []) 1 0,
                Assign [Name ''created'']
                  (Call (Name ''Column'') [Call (Name ''DateTime'') [] []] []) 2 0])
        ''models.py'')
     = ([], Some ValueError)"
  by (simp add: run_def run_trace_def yielded_def Plugin_init_def walk_def
        get_base_type_name_def endswith_def)

text \<open>
  C7 as amended: when the walk reaches, without an exception before it, an assignment of
  a call whose first positional argument has the base name \<^verbatim>\<open>DateTime\<close>, visiting it
  raises nothing and its diagnostics take their place in the run after those yielded
  before; among them there is exactly one STK001 diagnostic, at the line and column of
  the assignment, for each simple-name target whose name ends in neither \<^verbatim>\<open>_at\<close> nor
  \<^verbatim>\<open>_dt\<close>, in target order, and none for a target whose name ends in one of them.
\<close>

theorem STK001_datetime:
  assumes "walk t = before @ Assign targets (Call func (arg # args) kws) l c # after"
    and "run_nodes (rules (Plugin_init t fn)) before = (ds, None)"
    and "get_base_type_name arg = Inr ''DateTime''"
  shows "\<exists>ds'. visit (rules (Plugin_init t fn))
                  (Assign targets (Call func (arg # args) kws) l c) = (ds', None)
            \<and> run (Plugin_init t fn)
                = then_gen (ds @ ds', None) (run_nodes (rules (Plugin_init t fn)) after)
            \<and> filter (has_code ''STK001'') ds'
                = map (\<lambda>i. (l, c, ''STK001: '' @ str_format message_STK001 i, PluginClass))
                      (filter (\<lambda>i. \<not> (endswith i ''_at'' \<or> endswith i ''_dt''))
                              (target_names targets))"
proof -
  let ?rs = "rules (Plugin_init t fn)"
  let ?n = "Assign targets (Call func (arg # args) kws) l c"
  from assms(3) obtain full where full: "get_full_name arg = Inr full"
    and base: "last (str_split (CHR ''.'') full) = ''DateTime''"
    by (auto simp: get_base_type_name_def split: sum.splits)
  let ?fs = "map (descriptor arg full) (target_names targets)"
  let ?ds = "concat (map (field_diagnostics ?rs l c) ?fs)"
  have "list_all (\<lambda>f. list_all (\<lambda>r. returns r f) ?rs) ?fs"
    using base by (intro descriptors_return) simp
  then have "field_loop ?rs l c ?fs = (?ds, None)"
    by (rule field_loop_returns)
  with full have v: "visit ?rs ?n = (?ds, None)"
    by (simp add: visit_resolved)
  have "run (Plugin_init t fn)
      = then_gen (run_nodes ?rs before) (run_nodes ?rs (?n # after))"
    unfolding run_run_nodes
    using assms(1) by (simp add: Plugin_init_def run_nodes_append)
  also have "\<dots> = then_gen (ds @ ?ds, None) (run_nodes ?rs after)"
    using v assms(2) by simp
  finally have r: "run (Plugin_init t fn)
      = then_gen (ds @ ?ds, None) (run_nodes ?rs after)" .
  have "filter (has_code ''STK001'') ?ds
      = map (\<lambda>i. (l, c, ''STK001: '' @ str_format message_STK001 i, PluginClass))
            (filter (\<lambda>i. \<not> (endswith i ''_at'' \<or> endswith i ''_dt'')) (target_names targets))"
    using base by (rule STK001_for_names)
  with v r show ?thesis by blast
qed

theorem STK001_datetime_witness:
  "walk (Other [Assign [Name ''owner_id''] (Call (Name ''Column'') [Name ''Integer''] []) 1 0,
                Assign [Name ''created'', Name ''updated_at'']
                  (Call (Name ''Column'') [Call (Name ''DateTime'') [] []] []) 2 0])
     = [Other [Assign [Name ''owner_id''] (Call (Name ''Column'') [Name ''Integer''] []) 1 0,
               Assign [Name ''created'', Name ''updated_at'']
                 (Call (Name ''Column'') [Call (Name ''DateTime'') [] []] []) 2 0],
        Assign [Name ''owner_id''] (Call (Name ''Column'') [Name ''Integer''] []) 1 0]
       @ Assign [Name ''created'', Name ''updated_at'']
           (Call (Name ''Column'') [Call (Name ''DateTime'') [] []] []) 2 0
       # [Name ''owner_id'', Call (Name ''Column'') [Name ''Integer''] [],
          Name ''created'', Name ''updated_at'',
          Call (Name ''Column'') [Call (Name ''DateTime'') [] []] [],
          Name ''Column'', Name ''Integer'', Name ''Column'',
          Call (Name ''DateTime'') [] [], Name ''DateTime'']
   \<and> get_base_type_name (Call (Name ''DateTime'') [] []) = Inr ''DateTime''
   \<and> run (Plugin_init
        (Other [Assign [Name ''owner_id''] (Call (Name ''Column'') [Name ''Integer''] []) 1 0,
                Assign [Name ''created'', Name ''updated_at'']
                  (Call (Name ''Column'') [Call (Name ''DateTime'') [] []] []) 2 0])
        ''models.py'')
     = ([(1, 0, ''STK004: '' @ str_format message_STK004 ''owner_id'', PluginClass),
         (2, 0, ''STK001: '' @ str_format message_STK001 ''created'', PluginClass)], None)
   \<and> (\<exists>ds'. visit (rules (Plugin_init
        (Other [Assign [Name ''owner_id''] (Call (Name ''Column'') [Name ''Integer''] []) 1 0,
                Assign [Name ''created'', Name ''updated_at'']
                  (Call (Name ''Column'') [Call (Name ''DateTime'') [] []] []) 2 0])
        ''models.py''))
          (Assign [Name ''created'', Name ''updated_at'']
             (Call (Name ''Column'') [Call (Name ''DateTime'') [] []] []) 2 0) = (ds', None)
        \<and> filter (has_code ''STK001'') ds'
            = [(2, 0, ''STK001: '' @ str_format message_STK001 ''created'', PluginClass)])"
proof -
  let ?a = "Assign [Name ''owner_id''] (Call (Name ''Column'') [Name ''Integer''] []) 1 0"
  let ?b = "Assign [Name ''created'', Name ''updated_at'']
              (Call (Name ''Column'') [Call (Name ''DateTime'') [] []] []) 2 0"
  let ?t = "Other [?a, ?b]"
  let ?rs = "rules (Plugin_init ?t ''models.py'')"
  let ?after = "[Name ''owner_id'', Call (Name ''Column'') [Name ''Integer''] [],
          Name ''created'', Name ''updated_at'',
          Call (Name ''Column'') [Call (Name ''DateTime'') [] []] [],
          Name ''Column'', Name ''Integer'', Name ''Column'',
          Call (Name ''DateTime'') [] [], Name ''DateTime'']"
  have w: "walk ?t = [?t, ?a] @ ?b # ?after"
    by (simp add: walk_def)
  have b: "run_nodes ?rs [?t, ?a]
      = ([(1, 0, ''STK004: '' @ str_format message_STK004 ''owner_id'', PluginClass)], None)"
    by (simp add: run_nodes_def yielded_def Plugin_init_def get_base_type_name_def
          endswith_def startswith_def)
  have g: "get_base_type_name (Call (Name ''DateTime'') [] []) = Inr ''DateTime''"
    by (simp add: get_base_type_name_def)
  have a: "run_nodes ?rs ?after = ([], None)"
    by (simp add: run_nodes_def)
  have e: "filter (\<lambda>i. \<not> (endswith i ''_at'' \<or> endswith i ''_dt'')) [''created'', ''updated_at'']
      = [''created'']"
    by (simp add: endswith_def)
  from STK001_datetime [OF w b g]
  obtain ds' where v: "visit ?rs ?b = (ds', None)"
    and r: "run (Plugin_init ?t ''models.py'')
        = then_gen ([(1, 0, ''STK004: '' @ str_format message_STK004 ''owner_id'', PluginClass)] @ ds', None)
            (run_nodes ?rs ?after)"
    and f: "filter (has_code ''STK001'') ds'
        = map (\<lambda>i. (2, 0, ''STK001: '' @ str_format message_STK001 i, PluginClass))
              (filter (\<lambda>i. \<not> (endswith i ''_at'' \<or> endswith i ''_dt''))
                      (target_names [Name ''created'', Name ''updated_at'']))"
    by blast
  have "ds' = [(2, 0, ''STK001: '' @ str_format message_STK001 ''created'', PluginClass)]"
    using v
    by (simp add: visit_def yielded_def Plugin_init_def get_base_type_name_def
          endswith_def startswith_def)
  with w g v r f a e show ?thesis by simp
qed

subsection \<open>C9: a call without positional arguments\<close>

text \<open>
  C9: while the loop is at an assignment whose right-hand side is a call with no
  positional argument, with or without keyword arguments, nothing happens: no descriptor
  is built, no diagnostic is yielded and nothing is raised, and the run over any list of
  nodes, trace and diagnostics, is the same with and without that node.
\<close>

theorem no_positional_argument:
  "loop_body rs (Assign targets (Call func [] kws) l c) = ([], None)
   \<and> visit rs (Assign targets (Call func [] kws) l c) = ([], None)
   \<and> run_nodes rs (before @ Assign targets (Call func [] kws) l c # after)
       = run_nodes rs (before @ after)
   \<and> node_loop rs (before @ Assign targets (Call func [] kws) l c # after)
       = node_loop rs (before @ after)"
  by (simp add: visit_def run_nodes_append node_loop_append)

subsection \<open>C10: several targets\<close>

text \<open>
  C10 says that an assignment with several targets gives one descriptor for each
  simple-name target. For \<^verbatim>\<open>a = b = Column(10)\<close> the first positional argument does not
  resolve: there are two simple-name targets, no descriptor is built, and the run ends
  with \<^verbatim>\<open>ValueError\<close>.
\<close>

theorem multiple_targets_counterexample:
  "target_names [Name ''a'', Name ''b''] = [''a'', ''b'']
   \<and> run_trace (Plugin_init
        (Other [Assign [Name ''a'', Name ''b''] (Call (Name ''Column'') [Other []] []) 1 0])
        ''models.py'')
     = ([], Some ValueError)"
  by (simp add: run_trace_def Plugin_init_def walk_def get_base_type_name_def)

text \<open>
  C10 as amended: when the walk reaches, without an exception before it, an assignment
  with several targets whose right-hand side is a call with a positional argument, the
  first of which resolves to a base name other than \<^verbatim>\<open>bool\<close>, the run builds one
  descriptor for each simple-name target, in target order, all with the type names of
  that argument; each descriptor is followed by the diagnostics of the rules of the whole
  rule list that fire on it, in the order of the list, before the next descriptor is
  built; nothing is raised at the node; and every diagnostic so produced carries the line
  and the column of the assignment statement.
\<close>

theorem multiple_targets:
  assumes "walk t = before @ Assign targets (Call func (arg # args) kws) l c # after"
    and "node_loop (rules (Plugin_init t fn)) before = (evs, None)"
    and "get_full_name arg = Inr full"
    and "last (str_split (CHR ''.'') full) \<noteq> ''bool''"
  shows "run_trace (Plugin_init t fn)
           = then_gen
               (evs @ concat (map (descriptor_events (rules (Plugin_init t fn)) l c)
                                  (map (descriptor arg full) (target_names targets))), None)
               (node_loop (rules (Plugin_init t fn)) after)
       \<and> run (Plugin_init t fn)
           = then_gen
               (diagnostics_of evs
                  @ concat (map (field_diagnostics (rules (Plugin_init t fn)) l c)
                                (map (descriptor arg full) (target_names targets))), None)
               (run_nodes (rules (Plugin_init t fn)) after)
       \<and> (\<forall>f. \<forall>d \<in> set (field_diagnostics (rules (Plugin_init t fn)) l c f).
             diag_line d = l \<and> diag_column d = c)"
proof (intro conjI allI ballI)
  let ?rs = "rules (Plugin_init t fn)"
  let ?n = "Assign targets (Call func (arg # args) kws) l c"
  let ?fs = "map (descriptor arg full) (target_names targets)"
  have "list_all (\<lambda>f. list_all (\<lambda>r. returns r f) ?rs) ?fs"
    using assms(4) by (rule descriptors_return)
  then have "field_trace ?rs l c ?fs = (concat (map (descriptor_events ?rs l c) ?fs), None)"
    by (rule field_trace_returns)
  with assms(3)
  have b: "loop_body ?rs ?n = (concat (map (descriptor_events ?rs l c) ?fs), None)"
    by (simp add: target_loop_resolved)
  have "run_trace (Plugin_init t fn)
      = then_gen (node_loop ?rs before) (node_loop ?rs (?n # after))"
    unfolding run_trace_def
    using assms(1) by (simp add: Plugin_init_def node_loop_append)
  also have "\<dots> = then_gen (evs @ concat (map (descriptor_events ?rs l c) ?fs), None)
      (node_loop ?rs after)"
    using b assms(2) by (simp del: loop_body.simps)
  finally show tr: "run_trace (Plugin_init t fn)
      = then_gen (evs @ concat (map (descriptor_events ?rs l c) ?fs), None)
          (node_loop ?rs after)" .
  show "run (Plugin_init t fn)
      = then_gen (diagnostics_of evs @ concat (map (field_diagnostics ?rs l c) ?fs), None)
          (run_nodes ?rs after)"
    unfolding run_def tr yields_then_gen
    by (simp add: run_nodes_def diagnostics_of_descriptor_events del: map_map)
next
  fix f d
  assume "d \<in> set (field_diagnostics (rules (Plugin_init t fn)) l c f)"
  then show "diag_line d = l" and "diag_column d = c"
    by (auto dest: field_diagnostics_position)
qed

theorem multiple_targets_witness:
  "walk (Other [Assign [Name ''created'', Attribute (Name ''self'') ''x'', Name ''owner_id'']
                  (Call (Name ''Column'') [Name ''DateTime''] []) 5 8])
     = [Other [Assign [Name ''created'', Attribute (Name ''self'') ''x'', Name ''owner_id'']
                 (Call (Name ''Column'') [Name ''DateTime''] []) 5 8]]
       @ Assign [Name ''created'', Attribute (Name ''self'') ''x'', Name ''owner_id'']
           (Call (Name ''Column'') [Name ''DateTime''] []) 5 8
       # [Name ''created'', Attribute (Name ''self'') ''x'', Name ''owner_id'',
          Call (Name ''Column'') [Name ''DateTime''] [],
          Name ''self'', Name ''Column'', Name ''DateTime'']
   \<and> get_full_name (Name ''DateTime'') = Inr ''DateTime''
   \<and> last (str_split (CHR ''.'') ''DateTime'') \<noteq> ''bool''
   \<and> run_trace (Plugin_init
        (Other [Assign [Name ''created'', Attribute (Name ''self'') ''x'', Name ''owner_id'']
                  (Call (Name ''Column'') [Name ''DateTime''] []) 5 8])
        ''models.py'')
     = ([Built \<lparr>name = ''created'', column_type_node = Name ''DateTime'',
                base_type = ''DateTime'', full_type = ''DateTime''\<rparr>,
         Yielded (5, 8, ''STK001: '' @ str_format message_STK001 ''created'', PluginClass),
         Built \<lparr>name = ''owner_id'', column_type_node = Name ''DateTime'',
                base_type = ''DateTime'', full_type = ''DateTime''\<rparr>,
         Yielded (5, 8, ''STK001: '' @ str_format message_STK001 ''owner_id'', PluginClass),
         Yielded (5, 8, ''STK004: '' @ str_format message_STK004 ''owner_id'', PluginClass)],
        None)
   \<and> run (Plugin_init
        (Other [Assign [Name ''created'', Attribute (Name ''self'') ''x'', Name ''owner_id'']
                  (Call (Name ''Column'') [Name ''DateTime''] []) 5 8])
        ''models.py'')
     = ([(5, 8, ''STK001: '' @ str_format message_STK001 ''created'', PluginClass),
         (5, 8, ''STK001: '' @ str_format message_STK001 ''owner_id'', PluginClass),
         (5, 8, ''STK004: '' @ str_format message_STK004 ''owner_id'', PluginClass)], None)"
proof -
  let ?n = "Assign [Name ''created'', Attribute (Name ''self'') ''x'', Name ''owner_id'']
              (Call (Name ''Column'') [Name ''DateTime''] []) 5 8"
  let ?t = "Other [?n]"
  let ?rs = "rules (Plugin_init ?t ''models.py'')"
  let ?after = "[Name ''created'', Attribute (Name ''self'') ''x'', Name ''owner_id'',
          Call (Name ''Column'') [Name ''DateTime''] [],
          Name ''self'', Name ''Column'', Name ''DateTime'']"
  have w: "walk ?t = [?t] @ ?n # ?after" by (simp add: walk_def)
  have b: "node_loop ?rs [?t] = ([], None)" by simp
  have g: "get_full_name (Name ''DateTime'') = Inr ''DateTime''" by simp
  have nb: "last (str_split (CHR ''.'') ''DateTime'') \<noteq> ''bool''" by simp
  have a: "node_loop ?rs ?after = ([], None)" by simp
  have a': "run_nodes ?rs ?after = ([], None)" by (simp add: run_nodes_def)
  have ev: "concat (map (descriptor_events ?rs 5 8)
        (map (descriptor (Name ''DateTime'') ''DateTime'')
           (target_names [Name ''created'', Attribute (Name ''self'') ''x'', Name ''owner_id''])))
      = [Built \<lparr>name = ''created'', column_type_node = Name ''DateTime'',
                base_type = ''DateTime'', full_type = ''DateTime''\<rparr>,
         Yielded (5, 8, ''STK001: '' @ str_format message_STK001 ''created'', PluginClass),
         Built \<lparr>name = ''owner_id'', column_type_node = Name ''DateTime'',
                base_type = ''DateTime'', full_type = ''DateTime''\<rparr>,
         Yielded (5, 8, ''STK001: '' @ str_format message_STK001 ''owner_id'', PluginClass),
         Yielded (5, 8, ''STK004: '' @ str_format message_STK004 ''owner_id'', PluginClass)]"
    by (simp add: descriptor_events_def descriptor_def field_diagnostics_def fires_def
          diagnostic_of_def Plugin_init_def endswith_def startswith_def)
  have dg: "concat (map (field_diagnostics ?rs 5 8)
        (map (descriptor (Name ''DateTime'') ''DateTime'')
           (target_names [Name ''created'', Attribute (Name ''self'') ''x'', Name ''owner_id''])))
      = [(5, 8, ''STK001: '' @ str_format message_STK001 ''created'', PluginClass),
         (5, 8, ''STK001: '' @ str_format message_STK001 ''owner_id'', PluginClass),
         (5, 8, ''STK004: '' @ str_format message_STK004 ''owner_id'', PluginClass)]"
    by (simp add: descriptor_def field_diagnostics_def fires_def
          diagnostic_of_def Plugin_init_def endswith_def startswith_def)
  note m = multiple_targets [OF w b g nb]
  from m [THEN conjunct1] have "run_trace (Plugin_init ?t ''models.py'')
      = then_gen ([] @ concat (map (descriptor_events ?rs 5 8)
        (map (descriptor (Name ''DateTime'') ''DateTime'')
           (target_names [Name ''created'', Attribute (Name ''self'') ''x'', Name ''owner_id'']))), None)
          (node_loop ?rs ?after)" .
  then have tr: "run_trace (Plugin_init ?t ''models.py'')
      = ([Built \<lparr>name = ''created'', column_type_node = Name ''DateTime'',
                base_type = ''DateTime'', full_type = ''DateTime''\<rparr>,
         Yielded (5, 8, ''STK001: '' @ str_format message_STK001 ''created'', PluginClass),
         Built \<lparr>name = ''owner_id'', column_type_node = Name ''DateTime'',
                base_type = ''DateTime'', full_type = ''DateTime''\<rparr>,
         Yielded (5, 8, ''STK001: '' @ str_format message_STK001 ''owner_id'', PluginClass),
         Yielded (5, 8, ''STK004: '' @ str_format message_STK004 ''owner_id'', PluginClass)],
        None)"
    unfolding ev a by simp
  from m [THEN conjunct2, THEN conjunct1] have "run (Plugin_init ?t ''models.py'')
      = then_gen (diagnostics_of [] @ concat (map (field_diagnostics ?rs 5 8)
        (map (descriptor (Name ''DateTime'') ''DateTime'')
           (target_names [Name ''created'', Attribute (Name ''self'') ''x'', Name ''owner_id'']))), None)
          (run_nodes ?rs ?after)" .
  then have rn: "run (Plugin_init ?t ''models.py'')
      = ([(5, 8, ''STK001: '' @ str_format message_STK001 ''created'', PluginClass),
         (5, 8, ''STK001: '' @ str_format message_STK001 ''owner_id'', PluginClass),
         (5, 8, ''STK004: '' @ str_format message_STK004 ''owner_id'', PluginClass)], None)"
    unfolding dg a' by simp
  from w g nb tr rn show ?thesis by blast
qed


end
